theory Spec2Isabelle
  imports Complex_Main "HOL-Library.Sublist"
begin

section \<open>Python values\<close>

text \<open>
  A Python \<open>str\<close> is a sequence of Unicode code points, and \<open>len\<close>, slicing and
  \<open>strip\<close> count code points. A string is therefore a list of code points, so that the
  emoji of the headings and every character of a session file have a place in it.
  \<open>ustr\<close> reads an ASCII literal.
\<close>

type_synonym ustring = "nat list"

definition ustr :: "string \<Rightarrow> ustring" where
  "ustr s = map of_char s"

text \<open>
  What \<open>json.loads\<close> returns: \<open>None\<close>, a bool, an int, a str, a list or a dict with
  str keys. A dict is the association list of its items, each key once, in insertion
  order. JSON numbers with a fraction or an exponent (Python floats) are not represented:
  the code below never calculates with a number of a session file, it only asks for its
  type and its truth value and hands it to \<open>str\<close>.
\<close>

datatype json =
    JNull
  | JBool bool
  | JInt int
  | JStr ustring
  | JArr "json list"
  | JObj "(ustring \<times> json) list"

type_synonym pydict = "(ustring \<times> json) list"

datatype py_error = JSONDecodeError | AttributeError | TypeError | KeyError | ValueError ustring

text \<open>\<open>d.get(k)\<close> is \<open>dict_get d k\<close> with \<open>None\<close> for a missing key; \<open>d.get(k, dflt)\<close>
  is \<open>dict_get_or\<close>.\<close>

definition dict_get :: "pydict \<Rightarrow> ustring \<Rightarrow> json option" where
  "dict_get d k = map_of d k"

definition dict_get_or :: "pydict \<Rightarrow> ustring \<Rightarrow> json \<Rightarrow> json" where
  "dict_get_or d k dflt = (case map_of d k of None \<Rightarrow> dflt | Some v \<Rightarrow> v)"

text \<open>The truth value Python gives a decoded JSON value (\<open>if v:\<close>).\<close>

fun truthy :: "json \<Rightarrow> bool" where
  "truthy JNull = False"
| "truthy (JBool b) = b"
| "truthy (JInt i) = (i \<noteq> 0)"
| "truthy (JStr s) = (s \<noteq> [])"
| "truthy (JArr xs) = (xs \<noteq> [])"
| "truthy (JObj d) = (d \<noteq> [])"

text \<open>\<open>str.isspace\<close> of one character: the code points Unicode classes as whitespace.\<close>

definition py_isspace :: "nat \<Rightarrow> bool" where
  "py_isspace c = ((9 \<le> c \<and> c \<le> 13) \<or> (28 \<le> c \<and> c \<le> 32) \<or> c = 133 \<or> c = 160 \<or>
     c = 5760 \<or> (8192 \<le> c \<and> c \<le> 8202) \<or> c = 8232 \<or> c = 8233 \<or> c = 8239 \<or>
     c = 8287 \<or> c = 12288)"

definition py_strip :: "ustring \<Rightarrow> ustring" where
  "py_strip s = rev (dropWhile py_isspace (rev (dropWhile py_isspace s)))"

text \<open>\<open>sep.join(parts)\<close> for parts that are all strings.\<close>

fun py_join :: "ustring \<Rightarrow> ustring list \<Rightarrow> ustring" where
  "py_join sep [] = []"
| "py_join sep [p] = p"
| "py_join sep (p # q # ps) = p @ sep @ py_join sep (q # ps)"

text \<open>\<open>sep.join(parts)\<close> for decoded values: a part that is not a string raises
  \<open>TypeError\<close>.\<close>

fun as_strs :: "json list \<Rightarrow> ustring list option" where
  "as_strs [] = Some []"
| "as_strs (JStr s # vs) = (case as_strs vs of None \<Rightarrow> None | Some ss \<Rightarrow> Some (s # ss))"
| "as_strs (_ # vs) = None"

definition join_values :: "ustring \<Rightarrow> json list \<Rightarrow> py_error + ustring" where
  "join_values sep parts =
     (case as_strs parts of None \<Rightarrow> Inl TypeError | Some ss \<Rightarrow> Inr (py_join sep ss))"

text \<open>
  The decimal text of an integer: Python's \<open>str\<close> on an int.
\<close>

fun digits :: "nat \<Rightarrow> ustring" where
  "digits n = (if n < 10 then [48 + n] else digits (n div 10) @ [48 + n mod 10])"

declare digits.simps [simp del]

definition show_int :: "int \<Rightarrow> ustring" where
  "show_int i = (if i < 0 then 45 # digits (nat (- i)) else digits (nat i))"

text \<open>
  Python's builtin \<open>str\<close> enters the functions below as the parameter \<open>str_of\<close>, so
  that what is proved of them holds whatever text \<open>str\<close> gives a value. \<open>py_str\<close> is
  that builtin on the values the concrete checks need: \<open>None\<close>, booleans, integers,
  strings, and lists and dicts of these, where a string inside a list or dict is shown by
  \<open>repr\<close> (quoted, with backslash, the quote, newline, carriage return and tab escaped).
\<close>

definition repr_char :: "nat \<Rightarrow> nat \<Rightarrow> ustring" where
  "repr_char q c =
     (if c = 92 then [92, 92]
      else if c = q then [92, q]
      else if c = 10 then [92, 110]
      else if c = 13 then [92, 114]
      else if c = 9 then [92, 116]
      else [c])"

definition repr_str :: "ustring \<Rightarrow> ustring" where
  "repr_str s =
     (let q = (if 39 \<in> set s \<and> 34 \<notin> set s then 34 else 39)
      in q # concat (map (repr_char q) s) @ [q])"

fun py_repr :: "json \<Rightarrow> ustring"
  and py_repr_items :: "json list \<Rightarrow> ustring list"
  and py_repr_pairs :: "(ustring \<times> json) list \<Rightarrow> ustring list" where
  "py_repr JNull = ustr ''None''"
| "py_repr (JBool b) = (if b then ustr ''True'' else ustr ''False'')"
| "py_repr (JInt i) = show_int i"
| "py_repr (JStr s) = repr_str s"
| "py_repr (JArr xs) = ustr ''['' @ py_join (ustr '', '') (py_repr_items xs) @ ustr '']''"
| "py_repr (JObj d) = ustr ''{'' @ py_join (ustr '', '') (py_repr_pairs d) @ ustr ''}''"
| "py_repr_items [] = []"
| "py_repr_items (x # xs) = py_repr x # py_repr_items xs"
| "py_repr_pairs [] = []"
| "py_repr_pairs ((k, v) # d) = (repr_str k @ ustr '': '' @ py_repr v) # py_repr_pairs d"

definition py_str :: "json \<Rightarrow> ustring" where
  "py_str v = (case v of JStr s \<Rightarrow> s | _ \<Rightarrow> py_repr v)"

section \<open>Basic extraction (extract\_claude\_logs.py)\<close>

text \<open>
  \<open>ClaudeConversationExtractor._extract_text_content\<close>: a string is returned as it
  is; of a list, the \<open>text\<close> fields of the dict items whose \<open>type\<close> is \<open>"text"\<close> are
  collected (\<open>""\<close> where the field is missing) and joined by a newline, which raises
  \<open>TypeError\<close> when a collected field is not a string; anything else goes through \<open>str\<close>.
\<close>

fun text_parts :: "json list \<Rightarrow> json list" where
  "text_parts [] = []"
| "text_parts (JObj d # items) =
     (if dict_get d (ustr ''type'') = Some (JStr (ustr ''text''))
      then dict_get_or d (ustr ''text'') (JStr []) # text_parts items
      else text_parts items)"
| "text_parts (_ # items) = text_parts items"

fun extract_text_content :: "(json \<Rightarrow> ustring) \<Rightarrow> json \<Rightarrow> py_error + ustring" where
  "extract_text_content str_of (JStr s) = Inr s"
| "extract_text_content str_of (JArr items) = join_values [10] (text_parts items)"
| "extract_text_content str_of content = Inr (str_of content)"

text \<open>
  The body of the loop of \<open>extract_conversation\<close> for one decoded line, before its
  exception handlers: the message to append, \<open>None\<close> when nothing is appended, or the
  exception raised. \<open>entry.get\<close> on a value that is not a dict raises \<open>AttributeError\<close>;
  an entry without the key \<open>message\<close> fails both tests of the \<open>if\<close>/\<open>elif\<close>.
  A message is the dict the code builds, with the keys \<open>role\<close>, \<open>content\<close> and
  \<open>timestamp\<close>.
\<close>

definition make_message :: "ustring \<Rightarrow> ustring \<Rightarrow> json \<Rightarrow> pydict" where
  "make_message role text ts =
     [(ustr ''role'', JStr role), (ustr ''content'', JStr text), (ustr ''timestamp'', ts)]"

definition entry_of_role ::
  "(json \<Rightarrow> ustring) \<Rightarrow> ustring \<Rightarrow> json \<Rightarrow> pydict \<Rightarrow> json \<Rightarrow> py_error + pydict option" where
  "entry_of_role str_of role dflt entry msg =
     (case msg of
        JObj m \<Rightarrow>
          if dict_get m (ustr ''role'') = Some (JStr role) then
            (case extract_text_content str_of (dict_get_or m (ustr ''content'') dflt) of
               Inl err \<Rightarrow> Inl err
             | Inr text \<Rightarrow>
                 if text \<noteq> [] \<and> py_strip text \<noteq> []
                 then Inr (Some (make_message role text
                        (dict_get_or entry (ustr ''timestamp'') (JStr []))))
                 else Inr None)
          else Inr None
      | _ \<Rightarrow> Inr None)"

fun process_entry :: "(json \<Rightarrow> ustring) \<Rightarrow> json \<Rightarrow> py_error + pydict option" where
  "process_entry str_of (JObj entry) =
     (case dict_get entry (ustr ''message'') of
        None \<Rightarrow> Inr None
      | Some msg \<Rightarrow>
          if dict_get entry (ustr ''type'') = Some (JStr (ustr ''user''))
          then entry_of_role str_of (ustr ''user'') (JStr []) entry msg
          else if dict_get entry (ustr ''type'') = Some (JStr (ustr ''assistant''))
          then entry_of_role str_of (ustr ''assistant'') (JArr []) entry msg
          else Inr None)"
| "process_entry str_of _ = Inl AttributeError"

text \<open>
  \<open>extract_conversation\<close> on a file that opens and decodes: the file is the list of its
  lines, each one what \<open>json.loads\<close> makes of it, \<open>None\<close> when it raises
  \<open>JSONDecodeError\<close>. Both handlers of the loop \<open>continue\<close>.
\<close>

fun extract_loop :: "(json \<Rightarrow> ustring) \<Rightarrow> json option list \<Rightarrow> pydict list \<Rightarrow> pydict list" where
  "extract_loop str_of [] conversation = conversation"
| "extract_loop str_of (line # lines) conversation =
     extract_loop str_of lines
       (case line of
          None \<Rightarrow> conversation
        | Some entry \<Rightarrow>
            (case process_entry str_of entry of
               Inr (Some m) \<Rightarrow> conversation @ [m]
             | Inr None \<Rightarrow> conversation
             | Inl err \<Rightarrow> conversation))"

definition extract_conversation :: "(json \<Rightarrow> ustring) \<Rightarrow> json option list \<Rightarrow> pydict list" where
  "extract_conversation str_of lines = extract_loop str_of lines []"

subsection \<open>The claimed contents of an extracted conversation\<close>

text \<open>
  The specification's description of \<open>extract_conversation\<close>, in its own words: an
  entry is kept when its \<open>type\<close> is \<open>user\<close> or \<open>assistant\<close>, its \<open>message\<close> is a
  record whose \<open>role\<close> equals the type, and its recovered text is not empty after
  trimming. \<open>spec_text\<close> is the recovered text as the specification gives it: the content
  when it is a plain string, the newline-join of the text of the text-typed blocks when it
  is a list. \<open>amended_text\<close> adds the third shape the code accepts, the string form of
  any other value. \<open>kept_messages\<close> maps the kept lines, in file order, to their messages.
\<close>

definition is_text_block :: "json \<Rightarrow> bool" where
  "is_text_block v =
     (case v of JObj d \<Rightarrow> dict_get d (ustr ''type'') = Some (JStr (ustr ''text'')) | _ \<Rightarrow> False)"

definition block_text :: "json \<Rightarrow> json" where
  "block_text v = (case v of JObj d \<Rightarrow> dict_get_or d (ustr ''text'') (JStr []) | _ \<Rightarrow> JStr [])"

fun spec_text :: "json \<Rightarrow> ustring option" where
  "spec_text (JStr s) = Some s"
| "spec_text (JArr items) =
     (case as_strs (map block_text (filter is_text_block items)) of
        None \<Rightarrow> None
      | Some ss \<Rightarrow> Some (py_join [10] ss))"
| "spec_text _ = None"

fun amended_text :: "(json \<Rightarrow> ustring) \<Rightarrow> json \<Rightarrow> ustring option" where
  "amended_text str_of (JStr s) = spec_text (JStr s)"
| "amended_text str_of (JArr items) = spec_text (JArr items)"
| "amended_text str_of content = Some (str_of content)"

definition kept_text :: "(json \<Rightarrow> ustring option) \<Rightarrow> ustring \<Rightarrow> json \<Rightarrow> ustring option" where
  "kept_text recovered role message =
     (case message of
        JObj msg \<Rightarrow>
          if dict_get msg (ustr ''role'') = Some (JStr role) then
            (case dict_get msg (ustr ''content'') of
               None \<Rightarrow> None
             | Some content \<Rightarrow>
                 (case recovered content of
                    None \<Rightarrow> None
                  | Some text \<Rightarrow> if py_strip text \<noteq> [] then Some text else None))
          else None
      | _ \<Rightarrow> None)"

definition kept_message :: "(json \<Rightarrow> ustring option) \<Rightarrow> json \<Rightarrow> pydict option" where
  "kept_message recovered line =
     (case line of
        JObj entry \<Rightarrow>
          (case (dict_get entry (ustr ''type''), dict_get entry (ustr ''message'')) of
             (Some (JStr role), Some message) \<Rightarrow>
               if role = ustr ''user'' \<or> role = ustr ''assistant'' then
                 (case kept_text recovered role message of
                    None \<Rightarrow> None
                  | Some text \<Rightarrow>
                      Some (make_message role text
                              (dict_get_or entry (ustr ''timestamp'') (JStr []))))
               else None
           | _ \<Rightarrow> None)
      | _ \<Rightarrow> None)"

definition kept_messages :: "(json \<Rightarrow> ustring option) \<Rightarrow> json option list \<Rightarrow> pydict list" where
  "kept_messages recovered lines =
     List.map_filter (\<lambda>line. case line of None \<Rightarrow> None | Some e \<Rightarrow> kept_message recovered e) lines"


text \<open>A user entry whose content is the number 42.\<close>

definition number_message :: pydict where
  "number_message = [(ustr ''role'', JStr (ustr ''user'')), (ustr ''content'', JInt 42)]"

definition number_entry :: pydict where
  "number_entry =
     [(ustr ''type'', JStr (ustr ''user'')),
      (ustr ''message'', JObj number_message),
      (ustr ''timestamp'', JStr (ustr ''2024-01-15T10:30:00Z''))]"

definition is_str_or_list :: "json \<Rightarrow> bool" where
  "is_str_or_list v = (case v of JStr s \<Rightarrow> True | JArr xs \<Rightarrow> True | _ \<Rightarrow> False)"

text \<open>
  A session file of three lines: a user entry with the text \<open>hello\<close>, the entry with the
  number, and a line that does not decode.
\<close>

definition hello_entry :: pydict where
  "hello_entry =
     [(ustr ''type'', JStr (ustr ''user'')),
      (ustr ''message'', JObj [(ustr ''role'', JStr (ustr ''user'')),
                               (ustr ''content'', JStr (ustr ''hello''))]),
      (ustr ''timestamp'', JStr (ustr ''2024-01-15T10:29:00Z''))]"

definition three_line_file :: "json option list" where
  "three_line_file = [Some (JObj hello_entry), Some (JObj number_entry), None]"

section \<open>Dates and times\<close>

text \<open>
  A \<open>datetime\<close> value: the civil fields and the UTC offset in seconds, \<open>None\<close> for a
  naive value. \<open>dt_instant\<close> is its position on the time line in microseconds (days are
  counted in the proleptic Gregorian calendar); an aware value is placed by its UTC time, a
  naive one by its own fields.
\<close>

record datetime =
  dt_year :: nat
  dt_month :: nat
  dt_day :: nat
  dt_hour :: nat
  dt_minute :: nat
  dt_second :: nat
  dt_micro :: nat
  dt_offset :: "int option"

definition days_from_civil :: "nat \<Rightarrow> nat \<Rightarrow> nat \<Rightarrow> int" where
  "days_from_civil y m d =
     (let y' = (if m \<le> 2 then int y - 1 else int y);
          era = y' div 400;
          yoe = y' - era * 400;
          mp = (if m > 2 then int m - 3 else int m + 9);
          doy = (153 * mp + 2) div 5 + int d - 1;
          doe = yoe * 365 + yoe div 4 - yoe div 100 + doy
      in era * 146097 + doe - 719468)"

definition dt_instant :: "datetime \<Rightarrow> int" where
  "dt_instant t =
     ((days_from_civil (dt_year t) (dt_month t) (dt_day t) * 86400
        + int (dt_hour t) * 3600 + int (dt_minute t) * 60 + int (dt_second t)
        - (case dt_offset t of None \<Rightarrow> 0 | Some off \<Rightarrow> off)) * 1000000
      + int (dt_micro t))"

definition dt_aware :: "datetime \<Rightarrow> bool" where
  "dt_aware t = (dt_offset t \<noteq> None)"

text \<open>\<open>a < b\<close> on datetimes raises \<open>TypeError\<close> between a naive and an aware value.\<close>

definition dt_less :: "datetime \<Rightarrow> datetime \<Rightarrow> py_error + bool" where
  "dt_less a b =
     (if dt_aware a = dt_aware b then Inr (dt_instant a < dt_instant b) else Inl TypeError)"

text \<open>\<open>b - a\<close>: a \<open>timedelta\<close>, carried as its whole number of microseconds.\<close>

definition dt_sub :: "datetime \<Rightarrow> datetime \<Rightarrow> py_error + int" where
  "dt_sub b a =
     (if dt_aware a = dt_aware b then Inr (dt_instant b - dt_instant a) else Inl TypeError)"

text \<open>
  \<open>strftime\<close> for the three formats the code uses. A field is written in decimal,
  padded with zeros to its width (for \<open>%Y\<close> this is what Python prints for the years
  from 1000 on).
\<close>

definition zero_pad :: "nat \<Rightarrow> nat \<Rightarrow> ustring" where
  "zero_pad w n = replicate (w - length (digits n)) 48 @ digits n"

definition strftime_date :: "datetime \<Rightarrow> ustring" where
  "strftime_date t =
     zero_pad 4 (dt_year t) @ [45] @ zero_pad 2 (dt_month t) @ [45] @ zero_pad 2 (dt_day t)"

definition strftime_time :: "datetime \<Rightarrow> ustring" where
  "strftime_time t =
     zero_pad 2 (dt_hour t) @ [58] @ zero_pad 2 (dt_minute t) @ [58] @ zero_pad 2 (dt_second t)"

definition strftime_date_time :: "datetime \<Rightarrow> ustring" where
  "strftime_date_time t = strftime_date t @ [32] @ strftime_time t"

text \<open>\<open>s.replace("Z", "+00:00")\<close>: every \<open>Z\<close> of the string is replaced.\<close>

definition replace_Z :: "ustring \<Rightarrow> ustring" where
  "replace_Z s = concat (map (\<lambda>c. if c = 90 then ustr ''+00:00'' else [c]) s)"

text \<open>
  \<open>datetime.fromisoformat\<close> is a parameter \<open>fromiso\<close> of the functions that call it:
  \<open>None\<close> stands for the \<open>ValueError\<close> it raises on a string it does not accept.
  \<open>iso_parse\<close> is that function on the strings of the shape
  \<open>YYYY-MM-DD\<close>, \<open>YYYY-MM-DDTHH:MM:SS\<close>, with an optional fraction of three or six
  digits and an optional offset \<open>+HH:MM\<close> or \<open>-HH:MM\<close>, which every version of
  \<open>fromisoformat\<close> reads with the value given here; it is used for concrete inputs.
\<close>

definition is_digit :: "nat \<Rightarrow> bool" where
  "is_digit c = (48 \<le> c \<and> c \<le> 57)"

definition number_of :: "ustring \<Rightarrow> nat option" where
  "number_of s =
     (if s \<noteq> [] \<and> list_all is_digit s
      then Some (foldl (\<lambda>n c. 10 * n + (c - 48)) 0 s) else None)"

definition is_leap :: "nat \<Rightarrow> bool" where
  "is_leap y = (y mod 4 = 0 \<and> (y mod 100 \<noteq> 0 \<or> y mod 400 = 0))"

definition days_in_month :: "nat \<Rightarrow> nat \<Rightarrow> nat" where
  "days_in_month y m =
     (if m = 2 then (if is_leap y then 29 else 28)
      else if m = 4 \<or> m = 6 \<or> m = 9 \<or> m = 11 then 30 else 31)"

definition parse_date :: "ustring \<Rightarrow> (nat \<times> nat \<times> nat) option" where
  "parse_date s =
     (if length s = 10 \<and> s ! 4 = 45 \<and> s ! 7 = 45 then
        (case (number_of (take 4 s), number_of (take 2 (drop 5 s)), number_of (drop 8 s)) of
           (Some y, Some m, Some d) \<Rightarrow>
             if 1 \<le> y \<and> 1 \<le> m \<and> m \<le> 12 \<and> 1 \<le> d \<and> d \<le> days_in_month y m
             then Some (y, m, d) else None
         | _ \<Rightarrow> None)
      else None)"

definition parse_clock :: "ustring \<Rightarrow> (nat \<times> nat \<times> nat) option" where
  "parse_clock s =
     (if length s = 8 \<and> s ! 2 = 58 \<and> s ! 5 = 58 then
        (case (number_of (take 2 s), number_of (take 2 (drop 3 s)), number_of (drop 6 s)) of
           (Some h, Some m, Some sec) \<Rightarrow>
             if h < 24 \<and> m < 60 \<and> sec < 60 then Some (h, m, sec) else None
         | _ \<Rightarrow> None)
      else None)"

definition parse_fraction :: "ustring \<Rightarrow> (nat \<times> ustring) option" where
  "parse_fraction s =
     (case s of
        c # r \<Rightarrow>
          if c = 46 then
            (let ds = takeWhile is_digit r; rest = dropWhile is_digit r
             in if length ds = 6 then map_option (\<lambda>n. (n, rest)) (number_of ds)
                else if length ds = 3 then map_option (\<lambda>n. (n * 1000, rest)) (number_of ds)
                else None)
          else Some (0, s)
      | [] \<Rightarrow> Some (0, []))"

definition parse_offset :: "ustring \<Rightarrow> int option option" where
  "parse_offset s =
     (case s of
        [] \<Rightarrow> Some None
      | c # r \<Rightarrow>
          if (c = 43 \<or> c = 45) \<and> length r = 5 \<and> r ! 2 = 58 then
            (case (number_of (take 2 r), number_of (drop 3 r)) of
               (Some h, Some m) \<Rightarrow>
                 if h < 24 \<and> m < 60
                 then Some (Some ((if c = 45 then - 1 else 1) * (int h * 3600 + int m * 60)))
                 else None
             | _ \<Rightarrow> None)
          else None)"

definition iso_parse :: "ustring \<Rightarrow> datetime option" where
  "iso_parse s =
     (case parse_date (take 10 s) of
        None \<Rightarrow> None
      | Some (y, m, d) \<Rightarrow>
          (case drop 10 s of
             [] \<Rightarrow> Some \<lparr>dt_year = y, dt_month = m, dt_day = d, dt_hour = 0, dt_minute = 0,
                          dt_second = 0, dt_micro = 0, dt_offset = None\<rparr>
           | sep # t \<Rightarrow>
               if sep = 84 then
                 (case parse_clock (take 8 t) of
                    None \<Rightarrow> None
                  | Some (h, mi, sec) \<Rightarrow>
                      (case parse_fraction (drop 8 t) of
                         None \<Rightarrow> None
                       | Some (us, rest) \<Rightarrow>
                           (case parse_offset rest of
                              None \<Rightarrow> None
                            | Some off \<Rightarrow>
                                Some \<lparr>dt_year = y, dt_month = m, dt_day = d, dt_hour = h,
                                      dt_minute = mi, dt_second = sec, dt_micro = us,
                                      dt_offset = off\<rparr>)))
               else None))"

section \<open>Saving plain Markdown (extract\_claude\_logs.py)\<close>

text \<open>
  What an f-string writes for a decoded value: a string as it is, any other value through
  \<open>str\<close>.
\<close>

definition fmt :: "(json \<Rightarrow> ustring) \<Rightarrow> json \<Rightarrow> ustring" where
  "fmt str_of v = (case v of JStr s \<Rightarrow> s | _ \<Rightarrow> str_of v)"

text \<open>
  \<open>save_as_markdown\<close>. The date and time shown are those of the first message's
  timestamp when it is a non-empty string that \<open>fromisoformat\<close> accepts after \<open>Z\<close> is
  replaced; any exception there (also the \<open>AttributeError\<close> of \<open>replace\<close> on a
  timestamp that is not a string) and an empty or missing timestamp give today's date and
  no time. \<open>now\<close> is what \<open>datetime.now()\<close> returns.
\<close>

definition display_date :: "(ustring \<Rightarrow> datetime option) \<Rightarrow> datetime \<Rightarrow> json \<Rightarrow> ustring \<times> ustring" where
  "display_date fromiso now first_timestamp =
     (if truthy first_timestamp then
        (case first_timestamp of
           JStr s \<Rightarrow>
             (case fromiso (replace_Z s) of
                Some dt \<Rightarrow> (strftime_date dt, strftime_time dt)
              | None \<Rightarrow> (strftime_date now, []))
         | _ \<Rightarrow> (strftime_date now, []))
      else (strftime_date now, []))"

text \<open>
  The text written for the messages: \<open>msg["role"]\<close> and \<open>msg['content']\<close> raise
  \<open>KeyError\<close> on a message without the key. The headings carry the emoji U+1F464 and
  U+1F916.
\<close>

fun message_blocks :: "(json \<Rightarrow> ustring) \<Rightarrow> pydict list \<Rightarrow> py_error + ustring" where
  "message_blocks str_of [] = Inr []"
| "message_blocks str_of (msg # msgs) =
     (case (dict_get msg (ustr ''role''), dict_get msg (ustr ''content'')) of
        (Some role, Some content) \<Rightarrow>
          (case message_blocks str_of msgs of
             Inl err \<Rightarrow> Inl err
           | Inr rest \<Rightarrow>
               Inr ((if role = JStr (ustr ''user'')
                     then ustr ''## '' @ [128100] @ ustr '' User'' @ [10, 10]
                     else ustr ''## '' @ [129302] @ ustr '' Claude'' @ [10, 10])
                    @ fmt str_of content @ [10, 10] @ ustr ''---'' @ [10, 10] @ rest))
      | _ \<Rightarrow> Inl KeyError)"

text \<open>
  The result is \<open>None\<close> for an empty conversation, else the path written, here together
  with the text of the file; the path is the pair of the output directory and the file
  name. When a message raises, the exception leaves the function (the file is then cut
  short on disk, which the model does not keep).
\<close>

definition markdown_filename :: "ustring \<Rightarrow> ustring \<Rightarrow> ustring" where
  "markdown_filename date_str session_id =
     ustr ''claude-conversation-'' @ date_str @ ustr ''-'' @ take 8 session_id @ ustr ''.md''"

definition save_as_markdown ::
  "(ustring \<Rightarrow> datetime option) \<Rightarrow> datetime \<Rightarrow> (json \<Rightarrow> ustring) \<Rightarrow> ustring
     \<Rightarrow> pydict list \<Rightarrow> ustring \<Rightarrow> py_error + ((ustring \<times> ustring) \<times> ustring) option" where
  "save_as_markdown fromiso now str_of output_dir conversation session_id =
     (case conversation of
        [] \<Rightarrow> Inr None
      | first # _ \<Rightarrow>
          (let (date_str, time_str) =
                 display_date fromiso now (dict_get_or first (ustr ''timestamp'') (JStr []));
               filename = markdown_filename date_str session_id;
               header = ustr ''# Claude Conversation Log'' @ [10, 10]
                 @ ustr ''Session ID: '' @ session_id @ [10]
                 @ ustr ''Date: '' @ date_str
                 @ (if time_str \<noteq> [] then [32] @ time_str else [])
                 @ [10, 10] @ ustr ''---'' @ [10, 10]
           in case message_blocks str_of conversation of
                Inl err \<Rightarrow> Inl err
              | Inr body \<Rightarrow> Inr (Some ((output_dir, filename), header @ body))))"

text \<open>
  A conversation of one message dated 15 January 2024, exported on 4 November 2026.
\<close>

definition one_message_conversation :: "pydict list" where
  "one_message_conversation =
     [make_message (ustr ''user'') (ustr ''hello'') (JStr (ustr ''2024-01-15T10:30:00Z''))]"

definition export_day :: datetime where
  "export_day = \<lparr>dt_year = 2026, dt_month = 11, dt_day = 4, dt_hour = 9, dt_minute = 0,
                  dt_second = 0, dt_micro = 0, dt_offset = None\<rparr>"

text \<open>Every message has the keys \<open>role\<close> and \<open>content\<close>, as those of
  \<open>extract_conversation\<close> have.\<close>

definition has_role_and_content :: "pydict \<Rightarrow> bool" where
  "has_role_and_content msg =
     (dict_get msg (ustr ''role'') \<noteq> None \<and> dict_get msg (ustr ''content'') \<noteq> None)"

text \<open>The file name a call has written, if it has written one.\<close>

definition written_name ::
  "py_error + ((ustring \<times> ustring) \<times> ustring) option \<Rightarrow> ustring option" where
  "written_name r = (case r of Inr (Some ((dir, name), content)) \<Rightarrow> Some name | _ \<Rightarrow> None)"

text \<open>
  The date of the conversation: the first message's timestamp, when it is a non-empty
  string that parses as an ISO-8601 date and time with a trailing \<open>Z\<close> read as
  \<open>+00:00\<close>.
\<close>

definition first_message_date :: "(ustring \<Rightarrow> datetime option) \<Rightarrow> pydict \<Rightarrow> datetime option" where
  "first_message_date fromiso first =
     (case dict_get first (ustr ''timestamp'') of
        Some (JStr s) \<Rightarrow> if s = [] then None else fromiso (replace_Z s)
      | _ \<Rightarrow> None)"

section \<open>Real-time search (realtime\_search.py)\<close>

subsection \<open>Search results and the searcher\<close>

text \<open>
  Modelled from the spec: the \<open>SearchResult\<close> type and the search engine are defined
  in a module that is not among the sources. The specification (section 3) lists the
  result's fields; the model keeps those \<open>create_smart_searcher\<close> and \<open>trigger_search\<close>
  read: the file path, the optional timestamp (a datetime) and the relevance score. The
  searcher is a parameter: per mode, query and keyword arguments it returns its results or
  raises, and \<open>nlp\<close> tells whether it offers the semantic mode.
\<close>

record search_result =
  file_path :: ustring
  timestamp :: "datetime option"
  relevance_score :: rat
  matched_content :: ustring

datatype search_mode = Exact | Regex | Smart | Semantic

record kwargs =
  max_results :: "int option"

record 'k searcher =
  search :: "search_mode \<Rightarrow> ustring \<Rightarrow> 'k kwargs_scheme \<Rightarrow> py_error + search_result list"
  nlp :: bool

subsection \<open>The smart-search composition\<close>

text \<open>
  The test \<open>any(c in query for c in r"...")\<close> over the raw string of the characters
  \<open>. * + ? [ ] { } ( ) ^ $ |\<close> and two backslashes, given here by their code points.
\<close>

definition regex_metacharacters :: ustring where
  "regex_metacharacters = [46, 42, 43, 63, 91, 93, 123, 125, 40, 41, 94, 36, 124, 92, 92]"

definition looks_like_regex :: "ustring \<Rightarrow> bool" where
  "looks_like_regex query = list_ex (\<lambda>c. c \<in> set query) regex_metacharacters"

text \<open>
  The loop that appends the results whose path is not yet present; the set of present
  paths is taken once, before the loop.
\<close>

definition add_new :: "search_result list \<Rightarrow> search_result list \<Rightarrow> search_result list" where
  "add_new results found =
     (let existing_paths = set (map file_path results)
      in results @ filter (\<lambda>r. file_path r \<notin> existing_paths) found)"

text \<open>
  \<open>results.sort(key=..., reverse=True)\<close>. The key of a result is its timestamp, or
  \<open>datetime.min\<close> when it has none. Python's sort is stable, also under
  \<open>reverse=True\<close>: results with equal keys keep their order. Comparing a naive key with
  an aware one raises \<open>TypeError\<close>, and a sort of two or more keys of both kinds meets such
  a comparison.
\<close>

definition datetime_min :: datetime where
  "datetime_min = \<lparr>dt_year = 1, dt_month = 1, dt_day = 1, dt_hour = 0, dt_minute = 0,
                   dt_second = 0, dt_micro = 0, dt_offset = None\<rparr>"

definition sort_key_of :: "search_result \<Rightarrow> datetime" where
  "sort_key_of r = (case timestamp r of Some t \<Rightarrow> t | None \<Rightarrow> datetime_min)"

definition stable_sort_desc :: "('a \<Rightarrow> 'b::linorder) \<Rightarrow> 'a list \<Rightarrow> 'a list" where
  "stable_sort_desc f xs = rev (sort_key f (rev xs))"

definition keys_comparable :: "search_result list \<Rightarrow> bool" where
  "keys_comparable rs =
     (list_all (\<lambda>r. dt_aware (sort_key_of r)) rs \<or> list_all (\<lambda>r. \<not> dt_aware (sort_key_of r)) rs)"

definition sort_by_timestamp :: "search_result list \<Rightarrow> py_error + search_result list" where
  "sort_by_timestamp rs =
     (if keys_comparable rs
      then Inr (stable_sort_desc (\<lambda>r. dt_instant (sort_key_of r)) rs)
      else Inl TypeError)"

text \<open>\<open>xs[:n]\<close>: a negative \<open>n\<close> counts from the end.\<close>

definition slice_to :: "'a list \<Rightarrow> int \<Rightarrow> 'a list" where
  "slice_to xs n = (if 0 \<le> n then take (nat n) xs else take (nat (int (length xs) + n)) xs)"

text \<open>
  \<open>smart_search\<close>, the function \<open>create_smart_searcher\<close> installs. The exact and the
  smart search are called outside any handler, so their exception leaves the function;
  an exception of the regex search (step 2, \<open>with_regex\<close>) or of the semantic search
  (step 4, \<open>with_semantic\<close>) is swallowed. When the sort by
  timestamp raises, the list is sorted by relevance score instead. A sort that raises
  leaves the items of the list in an order of its own, which enters as the parameter
  \<open>left_by_sort\<close>; where the parameter gives no rearrangement of the list
  (\<open>same_items\<close>: every item as often as before), the list is taken as it was.
\<close>

definition same_items :: "'a list \<Rightarrow> 'a list \<Rightarrow> bool" where
  "same_items xs ys = (\<forall>x \<in> set (xs @ ys). count_list xs x = count_list ys x)"

definition with_regex ::
  "'k searcher \<Rightarrow> ustring \<Rightarrow> 'k kwargs_scheme \<Rightarrow> search_result list \<Rightarrow> search_result list" where
  "with_regex searcher query kw results =
     (if looks_like_regex query then
        (case search searcher Regex query kw of
           Inr regex_results \<Rightarrow> add_new results regex_results
         | Inl err \<Rightarrow> results)
      else results)"

definition with_semantic ::
  "'k searcher \<Rightarrow> ustring \<Rightarrow> 'k kwargs_scheme \<Rightarrow> search_result list \<Rightarrow> search_result list" where
  "with_semantic searcher query kw results =
     (if nlp searcher then
        (case search searcher Semantic query kw of
           Inr semantic_results \<Rightarrow> add_new results semantic_results
         | Inl err \<Rightarrow> results)
      else results)"

definition sort_results ::
  "(search_result list \<Rightarrow> search_result list) \<Rightarrow> search_result list \<Rightarrow> search_result list" where
  "sort_results left_by_sort results =
     (case sort_by_timestamp results of
        Inr s \<Rightarrow> s
      | Inl err \<Rightarrow>
          stable_sort_desc relevance_score
            (if same_items results (left_by_sort results) then left_by_sort results
             else results))"

definition smart_search ::
  "(search_result list \<Rightarrow> search_result list) \<Rightarrow> 'k searcher \<Rightarrow> ustring \<Rightarrow> 'k kwargs_scheme
     \<Rightarrow> py_error + search_result list" where
  "smart_search left_by_sort searcher query kw =
     (case search searcher Exact query kw of
        Inl err \<Rightarrow> Inl err
      | Inr exact_results \<Rightarrow>
          (let results1 = with_regex searcher query kw exact_results
           in case search searcher Smart query kw of
                Inl err \<Rightarrow> Inl err
              | Inr smart_results \<Rightarrow>
                  (let results2 = add_new results1 smart_results;
                       results3 = with_semantic searcher query kw results2;
                       sorted = sort_results left_by_sort results3
                   in Inr (slice_to sorted (case max_results kw of None \<Rightarrow> 20 | Some n \<Rightarrow> n)))))"

subsection \<open>The result cache\<close>

text \<open>
  The fields of \<open>SearchState\<close> and the cache of \<open>RealTimeSearch\<close>, a dict from query
  strings to result lists. \<open>trigger_search\<close> runs under the lock; \<open>now\<close> is what
  \<open>time.time()\<close> returns.
\<close>

record real_time_search =
  st_query :: ustring
  st_cursor_pos :: nat
  st_results :: "search_result list"
  st_selected_index :: int
  st_last_update :: rat
  st_is_searching :: bool
  results_cache :: "(ustring \<times> search_result list) list"

text \<open>\<open>del d[k]\<close> for a key of the dict.\<close>

definition dict_del :: "'k \<Rightarrow> ('k \<times> 'v) list \<Rightarrow> ('k \<times> 'v) list" where
  "dict_del k d = filter (\<lambda>(k', v). k' \<noteq> k) d"

text \<open>\<open>k.startswith(q)\<close> holds when \<open>q\<close> is a prefix of \<open>k\<close>.\<close>

definition keys_to_remove :: "ustring \<Rightarrow> (ustring \<times> 'v) list \<Rightarrow> ustring list" where
  "keys_to_remove query cache = filter (\<lambda>k. \<not> prefix query k) (map fst cache)"

definition trigger_search :: "rat \<Rightarrow> real_time_search \<Rightarrow> real_time_search" where
  "trigger_search now s =
     s\<lparr>st_last_update := now,
       st_is_searching := True,
       results_cache := fold dict_del (keys_to_remove (st_query s) (results_cache s))
                          (results_cache s)\<rparr>"

text \<open>A state whose cache holds the query \<open>ab\<close> when the query becomes \<open>abc\<close>.\<close>

definition typing_abc :: real_time_search where
  "typing_abc =
     \<lparr>st_query = ustr ''abc'', st_cursor_pos = 3, st_results = [], st_selected_index = 0,
      st_last_update = 0, st_is_searching = False,
      results_cache = [(ustr ''ab'', []), (ustr ''abcd'', [])]\<rparr>"

subsection \<open>What the composition promises\<close>

text \<open>How often a path occurs in a result list.\<close>

definition path_count :: "ustring \<Rightarrow> search_result list \<Rightarrow> nat" where
  "path_count p rs = length (filter (\<lambda>r. file_path r = p) rs)"

definition paths_of :: "search_result list \<Rightarrow> ustring set" where
  "paths_of rs = set (map file_path rs)"

text \<open>The time by which the results are ordered.\<close>

definition sort_time :: "search_result \<Rightarrow> int" where
  "sort_time r = dt_instant (sort_key_of r)"

text \<open>
  The specification's description of the merge: the results of the exact mode, of the
  regex mode when the query contains a pattern metacharacter, of the smart mode, and of
  the semantic mode when the engine has one, in that order, each without the results
  whose path is already there; a regex or a semantic search that fails adds nothing.
\<close>

definition unless_fails :: "py_error + search_result list \<Rightarrow> search_result list" where
  "unless_fails found = (case found of Inr rs \<Rightarrow> rs | Inl err \<Rightarrow> [])"

definition not_yet_found :: "search_result list \<Rightarrow> search_result list \<Rightarrow> search_result list" where
  "not_yet_found results found = filter (\<lambda>r. file_path r \<notin> paths_of results) found"

definition merged_results ::
  "'k searcher \<Rightarrow> ustring \<Rightarrow> 'k kwargs_scheme \<Rightarrow> search_result list \<Rightarrow> search_result list
     \<Rightarrow> search_result list" where
  "merged_results searcher query kw exact_results smart_results =
     (let regex_results = (if looks_like_regex query
                           then unless_fails (search searcher Regex query kw) else []);
          semantic_results = (if nlp searcher
                              then unless_fails (search searcher Semantic query kw) else []);
          regex_new = not_yet_found exact_results regex_results;
          smart_new = not_yet_found (exact_results @ regex_new) smart_results;
          semantic_new = not_yet_found (exact_results @ regex_new @ smart_new) semantic_results
      in exact_results @ regex_new @ smart_new @ semantic_new)"

text \<open>
  A list in descending order of a key, and a list that has its items of each key in the
  order in which another list has them: together, what a stable sort in descending order
  makes of that list.
\<close>

definition descending :: "('a \<Rightarrow> 'b::linorder) \<Rightarrow> 'a list \<Rightarrow> bool" where
  "descending f xs = sorted (rev (map f xs))"

definition same_key_order :: "('a \<Rightarrow> 'b) \<Rightarrow> 'a list \<Rightarrow> 'a list \<Rightarrow> bool" where
  "same_key_order f xs ys =
     (\<forall>k \<in> set (map f (xs @ ys)). filter (\<lambda>x. f x = k) ys = filter (\<lambda>x. f x = k) xs)"

text \<open>
  The claimed order: in \<open>out\<close>, every entry with path \<open>p\<close> comes before every entry whose
  path the exact mode did not return.
\<close>

definition precedes_new_paths :: "ustring \<Rightarrow> search_result list \<Rightarrow> search_result list \<Rightarrow> bool" where
  "precedes_new_paths p exact_results out =
     (\<forall>i < length out. \<forall>j < length out.
        file_path (out ! i) = p \<and> file_path (out ! j) \<notin> paths_of exact_results \<longrightarrow> i < j)"

text \<open>
  The order the sort by timestamp keeps: in \<open>out\<close>, every entry with path \<open>p\<close> comes
  before every entry whose path the exact mode did not return and whose timestamp is not
  later than its own.
\<close>

definition precedes_not_later :: "ustring \<Rightarrow> search_result list \<Rightarrow> search_result list \<Rightarrow> bool" where
  "precedes_not_later p exact_results out =
     (\<forall>i < length out. \<forall>j < length out.
        file_path (out ! i) = p \<and> file_path (out ! j) \<notin> paths_of exact_results
          \<and> sort_time (out ! j) \<le> sort_time (out ! i) \<longrightarrow> i < j)"

text \<open>
  The results of the exact mode stay at the front of the merged list, and what is appended
  after them has paths that the exact mode did not return.
\<close>

definition extends_exact :: "search_result list \<Rightarrow> search_result list \<Rightarrow> bool" where
  "extends_exact ex rs =
     (\<exists>rest. rs = ex @ rest \<and> (\<forall>r \<in> set rest. file_path r \<notin> paths_of ex))"

text \<open>
  A searcher over two files: the exact mode finds \<open>a.jsonl\<close>, last touched on 15 January
  2024; the smart mode finds it too, and \<open>b.jsonl\<close> of 1 June 2024.
\<close>

definition result_a :: search_result where
  "result_a = \<lparr>file_path = ustr ''a.jsonl'',
      timestamp = Some \<lparr>dt_year = 2024, dt_month = 1, dt_day = 15, dt_hour = 10, dt_minute = 30,
                         dt_second = 0, dt_micro = 0, dt_offset = None\<rparr>,
      relevance_score = 1, matched_content = ustr ''python''\<rparr>"

definition result_b :: search_result where
  "result_b = \<lparr>file_path = ustr ''b.jsonl'',
      timestamp = Some \<lparr>dt_year = 2024, dt_month = 6, dt_day = 1, dt_hour = 8, dt_minute = 0,
                         dt_second = 0, dt_micro = 0, dt_offset = None\<rparr>,
      relevance_score = 1 / 2, matched_content = ustr ''pythonic''\<rparr>"

definition two_file_searcher :: "unit searcher" where
  "two_file_searcher =
     \<lparr>search = (\<lambda>mode query kw.
         case mode of
           Exact \<Rightarrow> Inr [result_a]
         | Smart \<Rightarrow> Inr [result_a, result_b]
         | _ \<Rightarrow> Inr []),
      nlp = False\<rparr>"

definition no_kwargs :: kwargs where
  "no_kwargs = \<lparr>max_results = None\<rparr>"


text \<open>
  A searcher over three files: the smart mode also finds \<open>c.jsonl\<close>, last touched at the
  same time as \<open>a.jsonl\<close>, and returns it first.
\<close>

definition result_c :: search_result where
  "result_c = \<lparr>file_path = ustr ''c.jsonl'',
      timestamp = Some \<lparr>dt_year = 2024, dt_month = 1, dt_day = 15, dt_hour = 10, dt_minute = 30,
                         dt_second = 0, dt_micro = 0, dt_offset = None\<rparr>,
      relevance_score = 1 / 4, matched_content = ustr ''cpython''\<rparr>"

definition three_file_searcher :: "unit searcher" where
  "three_file_searcher =
     \<lparr>search = (\<lambda>mode query kw.
         case mode of
           Exact \<Rightarrow> Inr [result_a]
         | Smart \<Rightarrow> Inr [result_c, result_a, result_b]
         | _ \<Rightarrow> Inr []),
      nlp = False\<rparr>"

text \<open>
  A searcher whose exact mode finds two matches in \<open>a.jsonl\<close>, the second one a minute
  after the first.
\<close>

definition result_a2 :: search_result where
  "result_a2 = \<lparr>file_path = ustr ''a.jsonl'',
      timestamp = Some \<lparr>dt_year = 2024, dt_month = 1, dt_day = 15, dt_hour = 10, dt_minute = 31,
                         dt_second = 0, dt_micro = 0, dt_offset = None\<rparr>,
      relevance_score = 1, matched_content = ustr ''python3''\<rparr>"

definition two_match_searcher :: "unit searcher" where
  "two_match_searcher =
     \<lparr>search = (\<lambda>mode query kw.
         case mode of
           Exact \<Rightarrow> Inr [result_a, result_a2]
         | Smart \<Rightarrow> Inr [result_a]
         | _ \<Rightarrow> Inr []),
      nlp = False\<rparr>"

text \<open>
  A searcher asked for two results at most: the exact mode finds \<open>a.jsonl\<close> and
  \<open>d.jsonl\<close>, last touched on 1 March 2024; the smart mode finds \<open>a.jsonl\<close> and
  \<open>b.jsonl\<close>.
\<close>

definition result_d :: search_result where
  "result_d = \<lparr>file_path = ustr ''d.jsonl'',
      timestamp = Some \<lparr>dt_year = 2024, dt_month = 3, dt_day = 1, dt_hour = 9, dt_minute = 0,
                         dt_second = 0, dt_micro = 0, dt_offset = None\<rparr>,
      relevance_score = 3 / 4, matched_content = ustr ''python''\<rparr>"

definition two_exact_searcher :: "unit searcher" where
  "two_exact_searcher =
     \<lparr>search = (\<lambda>mode query kw.
         case mode of
           Exact \<Rightarrow> Inr [result_a, result_d]
         | Smart \<Rightarrow> Inr [result_a, result_b]
         | _ \<Rightarrow> Inr []),
      nlp = False\<rparr>"

definition two_at_most :: kwargs where
  "two_at_most = \<lparr>max_results = Some 2\<rparr>"

section \<open>Detailed transcripts (detailed\_export.py)\<close>

subsection \<open>Detailed messages\<close>

text \<open>
  The dicts that the extractor builds, one variant per value of their \<open>type\<close> key. A
  field holds what the code stores in it: a text where the code stores a \<open>str\<close>, a
  decoded value where it stores the result of a \<open>get\<close> (\<open>JNull\<close> is Python's
  \<open>None\<close>); the timestamp is the parsed datetime or \<open>None\<close>. The model name of an
  assistant message is absent when the message was a plain string.
\<close>

record tool_call =
  tool_name :: json
  tool_id :: json
  inputs :: json

record tool_result =
  tr_tool_use_id :: json
  tr_content :: json
  tr_is_error :: json
  tr_stdout :: json
  tr_stderr :: json
  tr_is_image :: json
  tr_interrupted :: json

datatype detailed_message =
    UserMessage ustring "datetime option"
  | AssistantMessage ustring "json option" "datetime option"
  | ToolCallsMessage "tool_call list" ustring json "datetime option"
  | ToolResultMessage tool_result "datetime option"
  | SystemMessage ustring "datetime option"

subsection \<open>User entries\<close>

text \<open>
  \<open>DetailedTranscriptExtractor._extract_text_content\<close>: of a list, the \<open>text\<close> fields
  of the text-typed dict items and the string items are joined by a newline.
\<close>

fun detailed_parts :: "json list \<Rightarrow> json list" where
  "detailed_parts [] = []"
| "detailed_parts (JObj d # items) =
     (if dict_get d (ustr ''type'') = Some (JStr (ustr ''text''))
      then dict_get_or d (ustr ''text'') (JStr []) # detailed_parts items
      else detailed_parts items)"
| "detailed_parts (JStr s # items) = JStr s # detailed_parts items"
| "detailed_parts (_ # items) = detailed_parts items"

fun detailed_text_content :: "(json \<Rightarrow> ustring) \<Rightarrow> json \<Rightarrow> py_error + ustring" where
  "detailed_text_content str_of (JStr s) = Inr s"
| "detailed_text_content str_of (JArr items) = join_values [10] (detailed_parts items)"
| "detailed_text_content str_of content = Inr (str_of content)"

text \<open>
  The tool-result message built from a \<open>tool_result\<close> block \<open>item\<close>;
  \<open>entry.get("toolUseResult", {})\<close> must be a dict for its \<open>get\<close> calls.
\<close>

definition tool_result_message ::
  "pydict \<Rightarrow> pydict \<Rightarrow> datetime option \<Rightarrow> py_error + detailed_message" where
  "tool_result_message entry item ts =
     (case dict_get_or entry (ustr ''toolUseResult'') (JObj []) of
        JObj tool_result_data \<Rightarrow>
          Inr (ToolResultMessage
            \<lparr>tr_tool_use_id = dict_get_or item (ustr ''tool_use_id'') JNull,
             tr_content = dict_get_or item (ustr ''content'') (JStr []),
             tr_is_error = dict_get_or item (ustr ''is_error'') (JBool False),
             tr_stdout = dict_get_or tool_result_data (ustr ''stdout'') JNull,
             tr_stderr = dict_get_or tool_result_data (ustr ''stderr'') JNull,
             tr_is_image = dict_get_or tool_result_data (ustr ''isImage'') (JBool False),
             tr_interrupted = dict_get_or tool_result_data (ustr ''interrupted'') (JBool False)\<rparr>
            ts)
      | _ \<Rightarrow> Inl AttributeError)"

text \<open>
  The loop over a list content in \<open>_process_user_entry\<close>. Its first test sends a string
  item to the next iteration (\<open>continue\<close>); a \<open>tool_result\<close> block returns from the
  function (\<open>Inl\<close>); a \<open>text\<close> block assigns its text to \<open>content\<close>. The last branch of
  the source, \<open>elif isinstance(item, str)\<close>, is never reached. At the end of the loop
  \<open>content\<close> is handed on (\<open>Inr\<close>).
\<close>

fun scan_items ::
  "pydict \<Rightarrow> datetime option \<Rightarrow> json list \<Rightarrow> json \<Rightarrow> (py_error + detailed_message) + json" where
  "scan_items entry ts [] content = Inr content"
| "scan_items entry ts (JStr s # items) content = scan_items entry ts items content"
| "scan_items entry ts (JObj item # items) content =
     (if dict_get item (ustr ''type'') = Some (JStr (ustr ''tool_result''))
      then Inl (tool_result_message entry item ts)
      else if dict_get item (ustr ''type'') = Some (JStr (ustr ''text''))
      then scan_items entry ts items (dict_get_or item (ustr ''text'') (JStr []))
      else scan_items entry ts items content)"
| "scan_items entry ts (_ # items) content = scan_items entry ts items content"

definition user_message ::
  "(json \<Rightarrow> ustring) \<Rightarrow> json \<Rightarrow> datetime option \<Rightarrow> py_error + detailed_message" where
  "user_message str_of content ts =
     (case detailed_text_content str_of content of
        Inl err \<Rightarrow> Inl err
      | Inr t \<Rightarrow> Inr (UserMessage t ts))"

definition process_user_entry ::
  "(json \<Rightarrow> ustring) \<Rightarrow> pydict \<Rightarrow> datetime option \<Rightarrow> py_error + detailed_message" where
  "process_user_entry str_of entry ts =
     (case dict_get_or entry (ustr ''message'') JNull of
        JStr s \<Rightarrow> Inr (UserMessage s ts)
      | JObj message_data \<Rightarrow>
          (let content = dict_get_or message_data (ustr ''content'') (JStr [])
           in case content of
                JArr items \<Rightarrow>
                  (case scan_items entry ts items content of
                     Inl returned \<Rightarrow> returned
                   | Inr content' \<Rightarrow> user_message str_of content' ts)
              | _ \<Rightarrow> user_message str_of content ts)
      | message_data \<Rightarrow>
          Inr (UserMessage (if truthy message_data then str_of message_data else []) ts))"

subsection \<open>The claimed text of a user message\<close>

text \<open>
  The specification's reading of a list content: the textual items are the plain strings
  and the texts of the text-typed blocks, and the last of them is the recovered text.
\<close>

fun textual_items :: "json list \<Rightarrow> json list" where
  "textual_items [] = []"
| "textual_items (JStr s # items) = JStr s # textual_items items"
| "textual_items (JObj d # items) =
     (if dict_get d (ustr ''type'') = Some (JStr (ustr ''text''))
      then dict_get_or d (ustr ''text'') (JStr []) # textual_items items
      else textual_items items)"
| "textual_items (_ # items) = textual_items items"

definition is_tool_result_block :: "json \<Rightarrow> bool" where
  "is_tool_result_block v =
     (case v of
        JObj d \<Rightarrow> dict_get d (ustr ''type'') = Some (JStr (ustr ''tool_result''))
      | _ \<Rightarrow> False)"

definition string_items :: "json list \<Rightarrow> ustring list" where
  "string_items items = concat (map (\<lambda>v. case v of JStr s \<Rightarrow> [s] | _ \<Rightarrow> []) items)"

text \<open>A user entry whose content is a text block followed by a plain string.\<close>

definition text_then_string :: "json list" where
  "text_then_string =
     [JObj [(ustr ''type'', JStr (ustr ''text'')), (ustr ''text'', JStr (ustr ''first''))],
      JStr (ustr ''second'')]"

definition text_then_string_entry :: pydict where
  "text_then_string_entry =
     [(ustr ''type'', JStr (ustr ''user'')),
      (ustr ''message'', JObj [(ustr ''role'', JStr (ustr ''user'')),
                               (ustr ''content'', JArr text_then_string)])]"

subsection \<open>The Markdown transcript\<close>

definition MAX_CONTENT_DISPLAY :: nat where
  "MAX_CONTENT_DISPLAY = 2000"

definition MAX_PREVIEW_LENGTH :: nat where
  "MAX_PREVIEW_LENGTH = 500"

definition MAX_STDERR_DISPLAY :: nat where
  "MAX_STDERR_DISPLAY = 1000"

definition TRUNCATION_INDICATOR :: ustring where
  "TRUNCATION_INDICATOR = [10] @ ustr ''... (truncated)''"

text \<open>
  The library functions the writer calls are parameters: \<open>str\<close>, \<open>json.dumps(v)\<close> and
  \<open>json.dumps(v, indent=2)\<close>.
\<close>

record builtins =
  py_str_of :: "json \<Rightarrow> ustring"
  json_dumps :: "json \<Rightarrow> ustring"
  json_dumps_indent :: "json \<Rightarrow> ustring"

text \<open>
  Writes in sequence: the text written is the concatenation, and the first exception
  ends the call.
\<close>

definition then_write :: "py_error + ustring \<Rightarrow> py_error + ustring \<Rightarrow> py_error + ustring" where
  "then_write a b =
     (case a of
        Inl err \<Rightarrow> Inl err
      | Inr x \<Rightarrow> (case b of Inl err \<Rightarrow> Inl err | Inr y \<Rightarrow> Inr (x @ y)))"

definition time_str :: "datetime option \<Rightarrow> ustring" where
  "time_str ts =
     (case ts of None \<Rightarrow> [] | Some t \<Rightarrow> ustr '' *['' @ strftime_time t @ ustr '']*'')"

text \<open>
  The output of a tool result. \<open>len\<close>, slicing and \<open>f.write\<close> together accept only a
  string: a true value of any other type raises (\<open>TypeError\<close>).
\<close>

definition stdout_block :: "json \<Rightarrow> py_error + ustring" where
  "stdout_block stdout =
     (if truthy stdout then
        (case stdout of
           JStr s \<Rightarrow>
             Inr (ustr ''**Output:**'' @ [10] @ ustr ''```'' @ [10]
                  @ (if length s > MAX_CONTENT_DISPLAY
                     then take MAX_CONTENT_DISPLAY s @ TRUNCATION_INDICATOR
                     else s)
                  @ [10] @ ustr ''```'' @ [10, 10])
         | _ \<Rightarrow> Inl TypeError)
      else Inr [])"

definition stderr_block :: "json \<Rightarrow> py_error + ustring" where
  "stderr_block stderr =
     (if truthy stderr then
        (case stderr of
           JStr s \<Rightarrow>
             Inr (ustr ''**Errors:**'' @ [10] @ ustr ''```'' @ [10]
                  @ take MAX_STDERR_DISPLAY s
                  @ (if length s > MAX_STDERR_DISPLAY then TRUNCATION_INDICATOR else [])
                  @ [10] @ ustr ''```'' @ [10, 10])
         | _ \<Rightarrow> Inl TypeError)
      else Inr [])"

definition content_block :: "builtins \<Rightarrow> tool_result \<Rightarrow> ustring" where
  "content_block lib r =
     (if \<not> truthy (tr_stdout r) \<and> \<not> truthy (tr_stderr r) then
        (let content = (case tr_content r of JStr s \<Rightarrow> s | v \<Rightarrow> py_str_of lib v)
         in if content \<noteq> [] then
              ustr ''**Result:**'' @ [10] @ ustr ''```'' @ [10]
              @ (if length content > MAX_CONTENT_DISPLAY
                 then take MAX_CONTENT_DISPLAY content @ TRUNCATION_INDICATOR
                 else content)
              @ [10] @ ustr ''```'' @ [10, 10]
            else [])
      else [])"

text \<open>The branch for a tool result; the heading carries U+1F4E4, the error mark U+274C.\<close>

definition tool_result_block :: "builtins \<Rightarrow> tool_result \<Rightarrow> datetime option \<Rightarrow> py_error + ustring" where
  "tool_result_block lib r ts =
     then_write
       (Inr (ustr ''### '' @ [128228] @ ustr '' Tool Result'' @ time_str ts @ [10, 10]
             @ (if truthy (tr_is_error r)
                then ustr ''**'' @ [10060] @ ustr '' ERROR**'' @ [10, 10] else [])))
       (then_write (stdout_block (tr_stdout r))
          (then_write (stderr_block (tr_stderr r)) (Inr (content_block lib r))))"

text \<open>
  The inputs of one tool call. \<open>inputs.get\<close> needs a dict. The preview of a written
  file slices the content before formatting it: a string or a list can be sliced, other
  true values raise.
\<close>

definition write_preview :: "builtins \<Rightarrow> json \<Rightarrow> py_error + ustring" where
  "write_preview lib content =
     (if truthy content then
        (case content of
           JStr s \<Rightarrow>
             Inr ([10] @ ustr ''**Content:**'' @ [10] @ ustr ''```'' @ [10]
                  @ take MAX_PREVIEW_LENGTH s
                  @ (if length s > MAX_PREVIEW_LENGTH then TRUNCATION_INDICATOR else [])
                  @ [10] @ ustr ''```'' @ [10])
         | JArr xs \<Rightarrow>
             Inr ([10] @ ustr ''**Content:**'' @ [10] @ ustr ''```'' @ [10]
                  @ py_str_of lib (JArr (take MAX_PREVIEW_LENGTH xs))
                  @ (if length xs > MAX_PREVIEW_LENGTH then TRUNCATION_INDICATOR else [])
                  @ [10] @ ustr ''```'' @ [10])
         | _ \<Rightarrow> Inl TypeError)
      else Inr [])"

definition tool_inputs_block :: "builtins \<Rightarrow> bool \<Rightarrow> tool_call \<Rightarrow> py_error + ustring" where
  "tool_inputs_block lib include_raw_json tool =
     (if tool_name tool = JStr (ustr ''Bash'') then
        (case inputs tool of
           JObj d \<Rightarrow>
             Inr (ustr ''**Command:**'' @ [10] @ ustr ''```bash'' @ [10]
                  @ fmt (py_str_of lib) (dict_get_or d (ustr ''command'') (JStr [])) @ [10]
                  @ ustr ''```'' @ [10]
                  @ (if truthy (dict_get_or d (ustr ''description'') JNull)
                     then ustr ''*''
                          @ fmt (py_str_of lib) (dict_get_or d (ustr ''description'') JNull)
                          @ ustr ''*'' @ [10]
                     else []))
         | _ \<Rightarrow> Inl AttributeError)
      else if tool_name tool \<in> {JStr (ustr ''Read''), JStr (ustr ''Write''), JStr (ustr ''Edit'')} then
        (case inputs tool of
           JObj d \<Rightarrow>
             then_write
               (Inr (ustr ''**File:** `''
                     @ fmt (py_str_of lib) (dict_get_or d (ustr ''file_path'') (JStr []))
                     @ ustr ''`'' @ [10]))
               (if tool_name tool = JStr (ustr ''Write'')
                then write_preview lib (dict_get_or d (ustr ''content'') JNull)
                else Inr [])
         | _ \<Rightarrow> Inl AttributeError)
      else if include_raw_json then
        Inr ([10] @ ustr ''**Inputs:**'' @ [10] @ ustr ''```json'' @ [10]
             @ take MAX_STDERR_DISPLAY (json_dumps_indent lib (inputs tool))
             @ (if length (json_dumps lib (inputs tool)) > MAX_STDERR_DISPLAY
                then TRUNCATION_INDICATOR else [])
             @ [10] @ ustr ''```'' @ [10])
      else Inr [])"

fun tool_call_blocks :: "builtins \<Rightarrow> bool \<Rightarrow> tool_call list \<Rightarrow> py_error + ustring" where
  "tool_call_blocks lib include_raw_json [] = Inr []"
| "tool_call_blocks lib include_raw_json (tool # tools) =
     then_write
       (then_write
          (Inr (ustr ''### '' @ [128295] @ ustr '' Tool Call'' @ [10, 10]
                @ ustr ''**Tool:** `'' @ fmt (py_str_of lib) (tool_name tool) @ ustr ''`'' @ [10]
                @ ustr ''**ID:** `'' @ fmt (py_str_of lib) (tool_id tool) @ ustr ''`'' @ [10, 10]))
          (then_write (tool_inputs_block lib include_raw_json tool) (Inr [10])))
       (tool_call_blocks lib include_raw_json tools)"

text \<open>
  What is written for one message, with the rule that closes it. The headings carry
  U+1F464 (human), U+1F916 (assistant) and U+2699 U+FE0F (system); a system message is
  written only when the extractor includes system messages.
\<close>

definition assistant_heading :: "builtins \<Rightarrow> json \<Rightarrow> datetime option \<Rightarrow> ustring" where
  "assistant_heading lib model ts =
     ustr ''## '' @ [129302] @ ustr '' '' @ fmt (py_str_of lib) model @ time_str ts @ [10, 10]"

definition message_rule :: ustring where
  "message_rule = ustr ''---'' @ [10, 10]"

fun render_message :: "builtins \<Rightarrow> bool \<Rightarrow> bool \<Rightarrow> detailed_message \<Rightarrow> py_error + ustring" where
  "render_message lib include_system include_raw_json (UserMessage content ts) =
     Inr (ustr ''## '' @ [128100] @ ustr '' Human'' @ time_str ts @ [10, 10]
          @ content @ [10, 10] @ message_rule)"
| "render_message lib include_system include_raw_json (AssistantMessage content model ts) =
     Inr (assistant_heading lib (case model of None \<Rightarrow> JStr (ustr ''Claude'') | Some m \<Rightarrow> m) ts
          @ content @ [10, 10] @ message_rule)"
| "render_message lib include_system include_raw_json (ToolCallsMessage tools text_content model ts) =
     then_write
       (Inr (assistant_heading lib model ts
             @ (if text_content \<noteq> [] then text_content @ [10, 10] else [])))
       (then_write (tool_call_blocks lib include_raw_json tools) (Inr message_rule))"
| "render_message lib include_system include_raw_json (ToolResultMessage r ts) =
     then_write (tool_result_block lib r ts) (Inr message_rule)"
| "render_message lib include_system include_raw_json (SystemMessage content ts) =
     Inr ((if include_system
           then ustr ''### '' @ [9881, 65039] @ ustr '' System'' @ time_str ts @ [10, 10]
                @ ustr ''```'' @ [10] @ take MAX_PREVIEW_LENGTH content @ [10]
                @ ustr ''```'' @ [10, 10]
           else [])
          @ message_rule)"

fun render_messages ::
  "builtins \<Rightarrow> bool \<Rightarrow> bool \<Rightarrow> detailed_message list \<Rightarrow> py_error + ustring" where
  "render_messages lib include_system include_raw_json [] = Inr []"
| "render_messages lib include_system include_raw_json (msg # msgs) =
     then_write (render_message lib include_system include_raw_json msg)
       (render_messages lib include_system include_raw_json msgs)"

text \<open>
  \<open>save_detailed_markdown\<close>: the text of the file it writes, when no message raises
  (the exception of a message leaves the function, with the file cut short on disk).
  \<open>now\<close> is what \<open>datetime.now()\<close> returns.
\<close>

definition save_detailed_markdown ::
  "builtins \<Rightarrow> datetime \<Rightarrow> bool \<Rightarrow> bool \<Rightarrow> detailed_message list \<Rightarrow> py_error + ustring" where
  "save_detailed_markdown lib now include_system include_raw_json messages =
     then_write
       (Inr (ustr ''# Claude Conversation - Detailed Transcript'' @ [10, 10]
             @ ustr ''*Exported: '' @ strftime_date_time now @ ustr ''*'' @ [10, 10]
             @ ustr ''---'' @ [10, 10]))
       (render_messages lib include_system include_raw_json messages)"

subsection \<open>The claimed rendering of a tool output\<close>

text \<open>
  How the specification has a standard output shown: its first 2000 characters followed
  by the marker when it is longer than 2000 characters, else all of it and no marker.
\<close>

definition shown_output :: "ustring \<Rightarrow> ustring" where
  "shown_output s =
     (if length s > 2000 then take 2000 s @ [10] @ ustr ''... (truncated)'' else s)"

text \<open>The standard error of a tool result is a string, or a false value such as
  \<open>None\<close>.\<close>

definition str_or_false :: "json \<Rightarrow> bool" where
  "str_or_false v = ((case v of JStr s \<Rightarrow> True | _ \<Rightarrow> False) \<or> \<not> truthy v)"

text \<open>A tool result with a standard output of 2500 characters \<open>x\<close>, and the builtins
  used for concrete inputs.\<close>

definition long_output_result :: tool_result where
  "long_output_result =
     \<lparr>tr_tool_use_id = JStr (ustr ''toolu_01''), tr_content = JStr [], tr_is_error = JBool False,
      tr_stdout = JStr (replicate 2500 120), tr_stderr = JNull, tr_is_image = JBool False,
      tr_interrupted = JBool False\<rparr>"

definition sample_builtins :: builtins where
  "sample_builtins = \<lparr>py_str_of = py_str, json_dumps = py_str, json_dumps_indent = py_str\<rparr>"

section \<open>Export formats (export\_formats.py)\<close>

text \<open>
  The three renderers. Each opens its output file
  \<open>claude-conversation-{today}-{first 8 characters of the session id}.{ext}\<close> in the
  output directory, writes the document and returns the path. The text of a document is
  fixed by the renderer and its inputs and is not spelled out here: a written file is
  recorded with its path, its renderer, the inputs and whether the document is complete.
  A renderer raises, leaving the file cut short, when it calls a string method on a
  value that is not a string: \<open>role.title()\<close> on the role of a message that none of the
  earlier tests accepts (Markdown and HTML), \<open>html.escape\<close> on the project of the
  metadata or on a true message content (HTML).
\<close>

datatype export_kind = MarkdownExporter | JSONExporter | HTMLExporter

record written_file =
  wf_path :: "ustring \<times> ustring"
  wf_kind :: export_kind
  wf_session_id :: ustring
  wf_conversation :: "pydict list"
  wf_metadata :: "pydict option"
  wf_complete :: bool

definition extension :: "export_kind \<Rightarrow> ustring" where
  "extension kind =
     (case kind of
        MarkdownExporter \<Rightarrow> ustr ''.md''
      | JSONExporter \<Rightarrow> ustr ''.json''
      | HTMLExporter \<Rightarrow> ustr ''.html'')"

definition export_filename :: "export_kind \<Rightarrow> datetime \<Rightarrow> ustring \<Rightarrow> ustring" where
  "export_filename kind now sid =
     ustr ''claude-conversation-'' @ strftime_date now @ ustr ''-'' @ take 8 sid @ extension kind"

definition is_str :: "json \<Rightarrow> bool" where
  "is_str v = (case v of JStr s \<Rightarrow> True | _ \<Rightarrow> False)"

definition markdown_message_ok :: "pydict \<Rightarrow> bool" where
  "markdown_message_ok msg =
     (let role = dict_get_or msg (ustr ''role'') (JStr (ustr ''unknown''))
      in role = JStr (ustr ''user'') \<or> role = JStr (ustr ''assistant'') \<or> is_str role)"

definition html_message_ok :: "pydict \<Rightarrow> bool" where
  "html_message_ok msg =
     (let role = dict_get_or msg (ustr ''role'') (JStr (ustr ''unknown''));
          content = dict_get_or msg (ustr ''content'') (JStr []);
          msg_type = dict_get_or msg (ustr ''type'') role
      in (role = JStr (ustr ''user'') \<or> role = JStr (ustr ''assistant'')
            \<or> msg_type = JStr (ustr ''tool_call'') \<or> msg_type = JStr (ustr ''tool_result'')
            \<or> is_str role)
         \<and> (truthy content \<longrightarrow> is_str content))"

definition html_metadata_ok :: "pydict option \<Rightarrow> bool" where
  "html_metadata_ok metadata =
     (case metadata of
        None \<Rightarrow> True
      | Some md \<Rightarrow>
          (case dict_get md (ustr ''project'') of None \<Rightarrow> True | Some p \<Rightarrow> is_str p))"

definition renders :: "export_kind \<Rightarrow> pydict list \<Rightarrow> pydict option \<Rightarrow> bool" where
  "renders kind conversation metadata =
     (case kind of
        MarkdownExporter \<Rightarrow> list_all markdown_message_ok conversation
      | JSONExporter \<Rightarrow> True
      | HTMLExporter \<Rightarrow> html_metadata_ok metadata \<and> list_all html_message_ok conversation)"

text \<open>
  \<open>exporter.export(conversation, session_id, metadata)\<close>: the files written and the
  path returned or the exception raised.
\<close>

definition exporter_export ::
  "export_kind \<Rightarrow> ustring \<Rightarrow> datetime \<Rightarrow> pydict list \<Rightarrow> ustring \<Rightarrow> pydict option
     \<Rightarrow> written_file list \<times> (py_error + ustring \<times> ustring)" where
  "exporter_export kind output_dir now conversation sid metadata =
     (let output_path = (output_dir, export_filename kind now sid);
          file = \<lparr>wf_path = output_path, wf_kind = kind, wf_session_id = sid,
                  wf_conversation = conversation, wf_metadata = metadata,
                  wf_complete = renders kind conversation metadata\<rparr>
      in ([file], if renders kind conversation metadata then Inr output_path
                  else Inl AttributeError))"

text \<open>
  \<open>ExportManager\<close>: the dict of exporters, in the order of its keys, and its
  \<open>export\<close>. \<open>str.lower\<close> is the parameter \<open>lower\<close>. The \<open>ValueError\<close> carries its
  message.
\<close>

definition exporters :: "(ustring \<times> export_kind) list" where
  "exporters =
     [(ustr ''markdown'', MarkdownExporter), (ustr ''md'', MarkdownExporter),
      (ustr ''json'', JSONExporter), (ustr ''html'', HTMLExporter)]"

definition export ::
  "(ustring \<Rightarrow> ustring) \<Rightarrow> ustring \<Rightarrow> datetime \<Rightarrow> pydict list \<Rightarrow> ustring \<Rightarrow> ustring
     \<Rightarrow> pydict option \<Rightarrow> written_file list \<times> (py_error + ustring \<times> ustring)" where
  "export lower output_dir now conversation sid format metadata =
     (let format_lower = lower format
      in case map_of exporters format_lower of
           None \<Rightarrow>
             ([], Inl (ValueError (ustr ''Unsupported format: '' @ format
                    @ ustr ''. Available: '' @ py_join (ustr '', '') (map fst exporters))))
         | Some exporter \<Rightarrow> exporter_export exporter output_dir now conversation sid metadata)"

text \<open>\<open>str.lower\<close> on ASCII text, for concrete inputs.\<close>

definition ascii_lower :: "ustring \<Rightarrow> ustring" where
  "ascii_lower s = map (\<lambda>c. if 65 \<le> c \<and> c \<le> 90 then c + 32 else c) s"

text \<open>The renderer of a format key.\<close>

definition renderer_of :: "ustring \<Rightarrow> export_kind" where
  "renderer_of key =
     (if key = ustr ''markdown'' \<or> key = ustr ''md'' then MarkdownExporter
      else if key = ustr ''json'' then JSONExporter
      else HTMLExporter)"

section \<open>Conversation statistics (conversation\_stats.py)\<close>

text \<open>
  \<open>ConversationStats\<close>. The float fields are rational numbers: a quotient is the exact
  quotient, and its rounding to a double is not modelled. The duration is a
  \<open>timedelta\<close>, carried as its whole number of microseconds.
\<close>

record conversation_stats =
  stats_session_id :: ustring
  total_messages :: nat
  user_messages :: nat
  assistant_messages :: nat
  total_words :: nat
  total_chars :: nat
  estimated_tokens :: nat
  estimated_reading_time_minutes :: rat
  start_time :: "datetime option"
  end_time :: "datetime option"
  duration :: "int option"
  average_message_length :: rat
  longest_message :: nat
  shortest_message :: nat
  messages_per_hour :: rat

definition AVERAGE_CHARS_PER_TOKEN :: nat where
  "AVERAGE_CHARS_PER_TOKEN = 4"

definition WORDS_PER_MINUTE_READING :: nat where
  "WORDS_PER_MINUTE_READING = 200"

definition empty_stats :: "ustring \<Rightarrow> conversation_stats" where
  "empty_stats sid =
     \<lparr>stats_session_id = sid, total_messages = 0, user_messages = 0, assistant_messages = 0,
      total_words = 0, total_chars = 0, estimated_tokens = 0,
      estimated_reading_time_minutes = 0, start_time = None, end_time = None,
      duration = None, average_message_length = 0, longest_message = 0,
      shortest_message = 0, messages_per_hour = 0\<rparr>"

text \<open>\<open>sum(1 for msg in conversation if msg.get('role') == role)\<close>.\<close>

definition count_role :: "ustring \<Rightarrow> pydict list \<Rightarrow> nat" where
  "count_role role conversation =
     length (filter (\<lambda>msg. dict_get msg (ustr ''role'') = Some (JStr role)) conversation)"

text \<open>\<open>len(content.split())\<close>: the number of maximal runs of characters that are not
  whitespace.\<close>

fun count_words :: "bool \<Rightarrow> ustring \<Rightarrow> nat" where
  "count_words in_word [] = 0"
| "count_words in_word (c # cs) =
     (if py_isspace c then count_words False cs
      else (if in_word then 0 else 1) + count_words True cs)"

definition word_count :: "ustring \<Rightarrow> nat" where
  "word_count s = count_words False s"

text \<open>The contents that are strings, in order; a message without content counts as
  the empty string.\<close>

definition string_contents :: "pydict list \<Rightarrow> ustring list" where
  "string_contents conversation =
     concat (map (\<lambda>msg. case dict_get_or msg (ustr ''content'') (JStr []) of
                          JStr s \<Rightarrow> [s] | _ \<Rightarrow> []) conversation)"

text \<open>
  The body of the \<open>try\<close> in the time loop: the two tests update the bounds one after
  the other, and a \<open>TypeError\<close> of a comparison leaves the body with what has been
  assigned so far.
\<close>

definition update_bounds ::
  "datetime \<Rightarrow> datetime option \<times> datetime option \<Rightarrow> datetime option \<times> datetime option" where
  "update_bounds t bounds =
     (case bounds of (start, end) \<Rightarrow>
        (case (case start of None \<Rightarrow> Inr True | Some s \<Rightarrow> dt_less t s) of
           Inl err \<Rightarrow> (start, end)
         | Inr earlier \<Rightarrow>
             (let start' = (if earlier then Some t else start)
              in case (case end of None \<Rightarrow> Inr True | Some e \<Rightarrow> dt_less e t) of
                   Inl err \<Rightarrow> (start', end)
                 | Inr later \<Rightarrow> (start', if later then Some t else end))))"

text \<open>
  The time loop. A true timestamp that is not a string has no \<open>replace\<close>: the
  \<open>AttributeError\<close> is not among the exceptions the loop catches and leaves the function.
  A string that \<open>fromisoformat\<close> rejects is passed over.
\<close>

fun time_loop ::
  "(ustring \<Rightarrow> datetime option) \<Rightarrow> pydict list \<Rightarrow> datetime option \<times> datetime option
     \<Rightarrow> py_error + datetime option \<times> datetime option" where
  "time_loop fromiso [] bounds = Inr bounds"
| "time_loop fromiso (msg # msgs) bounds =
     (let timestamp_str = dict_get_or msg (ustr ''timestamp'') JNull
      in if truthy timestamp_str then
           (case timestamp_str of
              JStr s \<Rightarrow>
                (case fromiso (replace_Z s) of
                   None \<Rightarrow> time_loop fromiso msgs bounds
                 | Some t \<Rightarrow> time_loop fromiso msgs (update_bounds t bounds))
            | _ \<Rightarrow> Inl AttributeError)
         else time_loop fromiso msgs bounds)"

text \<open>The duration and the rate, from the bounds and the number of messages.\<close>

definition rate_per_hour :: "nat \<Rightarrow> int \<Rightarrow> rat" where
  "rate_per_hour n micros =
     (let total_seconds = of_int micros / 1000000
      in if total_seconds > 0 then
           (let hours = total_seconds / 3600
            in if hours > 0 then of_nat n / hours else 0)
         else 0)"

definition analyze_conversation ::
  "(ustring \<Rightarrow> datetime option) \<Rightarrow> pydict list \<Rightarrow> ustring \<Rightarrow> py_error + conversation_stats" where
  "analyze_conversation fromiso conversation sid =
     (if conversation = [] then Inr (empty_stats sid)
      else
        (let contents = string_contents conversation;
             words = sum_list (map word_count contents);
             chars = sum_list (map length contents);
             message_lengths = map length contents
         in case time_loop fromiso conversation (None, None) of
              Inl err \<Rightarrow> Inl err
            | Inr (start, end) \<Rightarrow>
                (case (case (start, end) of
                         (Some s, Some e) \<Rightarrow> map_sum id Some (dt_sub e s)
                       | _ \<Rightarrow> Inr None) of
                   Inl err \<Rightarrow> Inl err
                 | Inr dur \<Rightarrow>
                     Inr \<lparr>stats_session_id = sid,
                          total_messages = length conversation,
                          user_messages = count_role (ustr ''user'') conversation,
                          assistant_messages = count_role (ustr ''assistant'') conversation,
                          total_words = words,
                          total_chars = chars,
                          estimated_tokens = chars div AVERAGE_CHARS_PER_TOKEN,
                          estimated_reading_time_minutes
                            = of_nat words / of_nat WORDS_PER_MINUTE_READING,
                          start_time = start,
                          end_time = end,
                          duration = dur,
                          average_message_length
                            = (if message_lengths = [] then 0
                               else of_nat (sum_list message_lengths)
                                      / of_nat (length message_lengths)),
                          longest_message
                            = (if message_lengths = [] then 0 else Max (set message_lengths)),
                          shortest_message
                            = (if message_lengths = [] then 0 else Min (set message_lengths)),
                          messages_per_hour
                            = (case dur of
                                 None \<Rightarrow> 0
                               | Some d \<Rightarrow> rate_per_hour (length conversation) d)\<rparr>)))"

subsection \<open>The claimed statistics\<close>

text \<open>
  The parseable timestamps of a conversation: those that are non-empty strings which
  \<open>fromisoformat\<close> accepts once \<open>Z\<close> is replaced. Two datetimes can be compared when
  both are naive or both aware; \<open>compared_times\<close> are the parseable timestamps that can
  be compared with the first one, which are all of them unless the conversation mixes
  naive and aware timestamps.
\<close>

definition parsed_time :: "(ustring \<Rightarrow> datetime option) \<Rightarrow> pydict \<Rightarrow> datetime option" where
  "parsed_time fromiso msg =
     (case dict_get msg (ustr ''timestamp'') of
        Some (JStr s) \<Rightarrow> if s = [] then None else fromiso (replace_Z s)
      | _ \<Rightarrow> None)"

definition parsed_times :: "(ustring \<Rightarrow> datetime option) \<Rightarrow> pydict list \<Rightarrow> datetime list" where
  "parsed_times fromiso conversation = List.map_filter (parsed_time fromiso) conversation"

definition compared_times :: "(ustring \<Rightarrow> datetime option) \<Rightarrow> pydict list \<Rightarrow> datetime list" where
  "compared_times fromiso conversation =
     (case parsed_times fromiso conversation of
        [] \<Rightarrow> []
      | t # ts \<Rightarrow> filter (\<lambda>u. dt_aware u = dt_aware t) (t # ts))"

text \<open>The time spanned by a non-empty list of datetimes, in microseconds.\<close>

definition span_micros :: "datetime list \<Rightarrow> int" where
  "span_micros ts = Max (set (map dt_instant ts)) - Min (set (map dt_instant ts))"

text \<open>Every timestamp of the conversation is a string or a false value (\<open>None\<close>, missing,
  empty).\<close>

definition timestamp_ok :: "pydict \<Rightarrow> bool" where
  "timestamp_ok msg =
     (let v = dict_get_or msg (ustr ''timestamp'') JNull in is_str v \<or> \<not> truthy v)"

definition has_string_content :: "pydict \<Rightarrow> bool" where
  "has_string_content msg = is_str (dict_get_or msg (ustr ''content'') (JStr []))"

text \<open>Ten messages, one every 800 seconds, from 10:00:00 to 12:00:00 on 15 January 2024.\<close>

definition ten_timestamps :: "ustring list" where
  "ten_timestamps =
     map ustr [''2024-01-15T10:00:00Z'', ''2024-01-15T10:13:20Z'', ''2024-01-15T10:26:40Z'',
               ''2024-01-15T10:40:00Z'', ''2024-01-15T10:53:20Z'', ''2024-01-15T11:06:40Z'',
               ''2024-01-15T11:20:00Z'', ''2024-01-15T11:33:20Z'', ''2024-01-15T11:46:40Z'',
               ''2024-01-15T12:00:00Z'']"

definition two_hour_conversation :: "pydict list" where
  "two_hour_conversation =
     map (\<lambda>ts. make_message (ustr ''user'') (ustr ''hello there'') (JStr ts)) ten_timestamps"

text \<open>Three messages without timestamps, one of them of a role that is neither user nor
  assistant.\<close>

definition three_roles_conversation :: "pydict list" where
  "three_roles_conversation =
     [make_message (ustr ''user'') (ustr ''hi'') (JStr []),
      make_message (ustr ''system'') (ustr ''note'') (JStr []),
      make_message (ustr ''assistant'') (ustr ''hello there'') (JStr [])]"

text \<open>A time of day on 15 January 2024, UTC.\<close>

definition utc_time :: "nat \<Rightarrow> nat \<Rightarrow> nat \<Rightarrow> datetime" where
  "utc_time h m s =
     \<lparr>dt_year = 2024, dt_month = 1, dt_day = 15, dt_hour = h, dt_minute = m, dt_second = s,
      dt_micro = 0, dt_offset = Some 0\<rparr>"

text \<open>
  A session line whose timestamp is a number, the seconds since 1970 of 15 January 2024,
  10:30:00 UTC, and the conversation \<open>extract_conversation\<close> makes of it: the timestamp
  is taken over as it is.
\<close>

definition number_timestamp_entry :: pydict where
  "number_timestamp_entry =
     [(ustr ''type'', JStr (ustr ''user'')),
      (ustr ''message'', JObj [(ustr ''role'', JStr (ustr ''user'')),
                               (ustr ''content'', JStr (ustr ''hello''))]),
      (ustr ''timestamp'', JInt 1705314600)]"

definition number_timestamp_conversation :: "pydict list" where
  "number_timestamp_conversation =
     [make_message (ustr ''user'') (ustr ''hello'') (JInt 1705314600)]"
section \<open>Properties of basic extraction\<close>

lemma text_parts_eq: "text_parts items = map block_text (filter is_text_block items)"
  by (induction items rule: text_parts.induct) (simp_all add: is_text_block_def block_text_def)

lemma py_strip_Nil: "py_strip [] = []"
  by (simp add: py_strip_def)

lemma extract_text_amended:
  "extract_text_content str_of content =
     (case amended_text str_of content of None \<Rightarrow> Inl TypeError | Some t \<Rightarrow> Inr t)"
  by (cases content) (simp_all add: join_values_def text_parts_eq split: option.splits)

lemma entry_of_role_kept:
  "entry_of_role str_of role dflt entry msg =
     (case msg of
        JObj m \<Rightarrow>
          if dict_get m (ustr ''role'') = Some (JStr role) then
            (case amended_text str_of (dict_get_or m (ustr ''content'') dflt) of
               None \<Rightarrow> Inl TypeError
             | Some text \<Rightarrow>
                 if py_strip text \<noteq> []
                 then Inr (Some (make_message role text
                        (dict_get_or entry (ustr ''timestamp'') (JStr []))))
                 else Inr None)
          else Inr None
      | _ \<Rightarrow> Inr None)"
  unfolding entry_of_role_def extract_text_amended
  by (auto simp: py_strip_Nil split: json.splits option.splits)

lemma entry_of_role_kept_text:
  assumes "dflt = JStr [] \<or> dflt = JArr []"
  shows "(case entry_of_role str_of role dflt entry msg of Inr (Some m) \<Rightarrow> Some m | _ \<Rightarrow> None)
     = (case kept_text (amended_text str_of) role msg of
          None \<Rightarrow> None
        | Some text \<Rightarrow> Some (make_message role text (dict_get_or entry (ustr ''timestamp'') (JStr []))))"
proof (cases msg)
  case (JObj m)
  show ?thesis
  proof (cases "dict_get m (ustr ''content'')")
    case None
    then have d: "dict_get_or m (ustr ''content'') dflt = dflt"
      by (simp add: dict_get_or_def dict_get_def)
    from assms show ?thesis
      unfolding entry_of_role_kept JObj kept_text_def
      by (auto simp: None d py_strip_Nil)
  next
    case (Some c)
    then have d: "dict_get_or m (ustr ''content'') dflt = c"
      by (simp add: dict_get_or_def dict_get_def)
    show ?thesis
      unfolding entry_of_role_kept JObj kept_text_def
      by (simp add: Some d split: option.splits)
  qed
qed (simp_all add: entry_of_role_def kept_text_def)


lemma process_entry_kept:
  "(case process_entry str_of e of Inr (Some m) \<Rightarrow> Some m | _ \<Rightarrow> None)
     = kept_message (amended_text str_of) e"
proof (cases e)
  case (JObj entry)
  show ?thesis
  proof (cases "dict_get entry (ustr ''message'')")
    case None
    then show ?thesis
      by (simp add: JObj kept_message_def split: option.splits json.splits)
  next
    case (Some msg)
    consider (user) "dict_get entry (ustr ''type'') = Some (JStr (ustr ''user''))"
      | (assistant) "dict_get entry (ustr ''type'') = Some (JStr (ustr ''assistant''))"
      | (other) "dict_get entry (ustr ''type'') \<noteq> Some (JStr (ustr ''user''))"
                "dict_get entry (ustr ''type'') \<noteq> Some (JStr (ustr ''assistant''))"
      by blast
    then show ?thesis
    proof cases
      case user
      show ?thesis
        using entry_of_role_kept_text [of "JStr []" str_of "ustr ''user''" entry msg]
        by (simp add: JObj Some user kept_message_def)
    next
      case assistant
      have neq: "ustr ''assistant'' \<noteq> ustr ''user''"
        by (simp add: ustr_def)
      show ?thesis
        using entry_of_role_kept_text [of "JArr []" str_of "ustr ''assistant''" entry msg]
        by (simp add: JObj Some assistant kept_message_def neq)
    next
      case other
      then show ?thesis
        by (auto simp: JObj Some kept_message_def split: option.splits json.splits)
    qed
  qed
qed (simp_all add: kept_message_def)

lemma extract_loop_acc:
  "extract_loop str_of lines acc = acc @ extract_loop str_of lines []"
proof (induction lines arbitrary: acc)
  case Nil
  show ?case by simp
next
  case (Cons l ls)
  show ?case
    unfolding extract_loop.simps
    by (subst Cons.IH, subst (2) Cons.IH) (simp split: option.splits sum.splits)
qed

lemma extract_conversation_Cons:
  "extract_conversation str_of (l # ls)
      = (case l of None \<Rightarrow> [] | Some e \<Rightarrow>
           (case kept_message (amended_text str_of) e of None \<Rightarrow> [] | Some m \<Rightarrow> [m]))
        @ extract_conversation str_of ls"
proof -
  have "extract_conversation str_of (l # ls)
      = (case l of None \<Rightarrow> [] | Some e \<Rightarrow>
           (case (case process_entry str_of e of Inr (Some m) \<Rightarrow> Some m | _ \<Rightarrow> None)
            of None \<Rightarrow> [] | Some m \<Rightarrow> [m]))
        @ extract_conversation str_of ls"
    unfolding extract_conversation_def extract_loop.simps
    by (subst extract_loop_acc) (simp split: option.splits sum.splits)
  then show ?thesis
    by (simp only: process_entry_kept)
qed

text \<open>
  Claim C2, as the code has it: for every session file, \<open>extract_conversation\<close> returns
  exactly the messages of the lines that decode to an entry whose type is \<open>user\<close> or
  \<open>assistant\<close>, whose message is a record with that role, and whose recovered text is
  a plain string, the newline-join of the text of the text-typed blocks of a list, or the
  string form of a content of any other shape, and is not empty after trimming. The
  messages come in file order, each with the role, the text and the entry's timestamp
  (the empty string when absent); every other line is dropped.
\<close>

theorem extract_conversation_is_kept_messages:
  "extract_conversation str_of lines = kept_messages (amended_text str_of) lines"
proof (induction lines)
  case Nil
  show ?case by (simp add: extract_conversation_def kept_messages_def List.map_filter_simps)
next
  case (Cons l ls)
  show ?case
    unfolding extract_conversation_Cons Cons.IH
    by (simp add: kept_messages_def List.map_filter_simps split: option.splits)
qed


text \<open>
  Claim C2 as stated, with the recovered text only a plain string or a join of text
  blocks, fails on an entry whose content is the number 42: the code returns its message,
  with the text \<open>42\<close>.
\<close>

theorem extract_conversation_number_content_counterexample:
  "extract_conversation py_str [Some (JObj number_entry)]
     \<noteq> kept_messages spec_text [Some (JObj number_entry)]"
  by code_simp

subsection \<open>An entry among the lines of a file\<close>

lemma extract_conversation_Nil: "extract_conversation str_of [] = []"
  by (simp add: extract_conversation_def)

lemma extract_conversation_append:
  "extract_conversation str_of (xs @ ys)
     = extract_conversation str_of xs @ extract_conversation str_of ys"
  by (induction xs) (simp_all add: extract_conversation_Nil extract_conversation_Cons)

lemma kept_message_other_content:
  assumes "\<not> is_str_or_list content"
    and "role = ustr ''user'' \<or> role = ustr ''assistant''"
    and "dict_get entry (ustr ''type'') = Some (JStr role)"
    and "dict_get entry (ustr ''message'') = Some (JObj msg)"
    and "dict_get msg (ustr ''role'') = Some (JStr role)"
    and "dict_get msg (ustr ''content'') = Some content"
  shows "kept_message (amended_text str_of) (JObj entry)
     = (if py_strip (str_of content) \<noteq> []
        then Some (make_message role (str_of content)
                (dict_get_or entry (ustr ''timestamp'') (JStr [])))
        else None)"
proof -
  from assms(1) have rec: "amended_text str_of content = Some (str_of content)"
    by (cases content) (simp_all add: is_str_or_list_def)
  have kt: "kept_text (amended_text str_of) role (JObj msg)
      = (if py_strip (str_of content) \<noteq> [] then Some (str_of content) else None)"
    by (simp add: kept_text_def assms(5) assms(6) rec)
  show ?thesis
    using assms(2) by (simp add: kept_message_def assms(3) assms(4) kt)
qed

lemma hello_entry_kept:
  "extract_conversation py_str [Some (JObj hello_entry)]
     = [make_message (ustr ''user'') (ustr ''hello'') (JStr (ustr ''2024-01-15T10:29:00Z''))]"
  by (simp add: extract_conversation_def hello_entry_def entry_of_role_def dict_get_def
      dict_get_or_def ustr_def py_strip_def py_isspace_def make_message_def)

text \<open>
  Claim C10: in basic extraction a content that is neither a string nor a list is
  recovered as its string form, and a user or assistant entry with such a content is not
  dropped, wherever it stands in the session file: the conversation is what the lines
  before the entry give, then the entry's message with that text and the entry's
  timestamp whenever the string form is not empty after trimming (and nothing for the
  entry otherwise), then what the lines after it give.
\<close>

theorem other_content_recovered_by_str:
  assumes "\<not> is_str_or_list content"
    and "role = ustr ''user'' \<or> role = ustr ''assistant''"
    and "dict_get entry (ustr ''type'') = Some (JStr role)"
    and "dict_get entry (ustr ''message'') = Some (JObj msg)"
    and "dict_get msg (ustr ''role'') = Some (JStr role)"
    and "dict_get msg (ustr ''content'') = Some content"
  shows "extract_text_content str_of content = Inr (str_of content)
    \<and> extract_conversation str_of (before @ Some (JObj entry) # after)
        = extract_conversation str_of before
          @ (if py_strip (str_of content) \<noteq> []
             then [make_message role (str_of content)
                     (dict_get_or entry (ustr ''timestamp'') (JStr []))]
             else [])
          @ extract_conversation str_of after"
proof -
  from assms(1) have "amended_text str_of content = Some (str_of content)"
    by (cases content) (simp_all add: is_str_or_list_def)
  then have "extract_text_content str_of content = Inr (str_of content)"
    by (simp add: extract_text_amended)
  moreover have "extract_conversation str_of (before @ Some (JObj entry) # after)
        = extract_conversation str_of before
          @ (if py_strip (str_of content) \<noteq> []
             then [make_message role (str_of content)
                     (dict_get_or entry (ustr ''timestamp'') (JStr []))]
             else [])
          @ extract_conversation str_of after"
    unfolding extract_conversation_append extract_conversation_Cons
    by (simp add: kept_message_other_content [OF assms])
  ultimately show ?thesis by blast
qed

theorem other_content_recovered_by_str_witness:
  "extract_text_content py_str (JInt 42) = Inr (ustr ''42'')
    \<and> extract_conversation py_str three_line_file
         = [make_message (ustr ''user'') (ustr ''hello'') (JStr (ustr ''2024-01-15T10:29:00Z'')),
            make_message (ustr ''user'') (ustr ''42'') (JStr (ustr ''2024-01-15T10:30:00Z''))]"
proof -
  have h1: "\<not> is_str_or_list (JInt 42)"
    by (simp add: is_str_or_list_def)
  have h2: "ustr ''user'' = ustr ''user'' \<or> ustr ''user'' = ustr ''assistant''"
    by simp
  have h3: "dict_get number_entry (ustr ''type'') = Some (JStr (ustr ''user''))"
    by code_simp
  have h4: "dict_get number_entry (ustr ''message'') = Some (JObj number_message)"
    by code_simp
  have h5: "dict_get number_message (ustr ''role'') = Some (JStr (ustr ''user''))"
    by code_simp
  have h6: "dict_get number_message (ustr ''content'') = Some (JInt 42)"
    by code_simp
  have s: "py_str (JInt 42) = ustr ''42''"
    by code_simp
  have h7: "py_strip (ustr ''42'') \<noteq> []"
    by code_simp
  have ts: "dict_get_or number_entry (ustr ''timestamp'') (JStr [])
        = JStr (ustr ''2024-01-15T10:30:00Z'')"
    by code_simp
  have after: "extract_conversation py_str [None] = []"
    by (simp add: extract_conversation_def)
  have lines: "three_line_file = [Some (JObj hello_entry)] @ Some (JObj number_entry) # [None]"
    by (simp add: three_line_file_def)
  from other_content_recovered_by_str [OF h1 h2 h3 h4 h5 h6,
      of py_str "[Some (JObj hello_entry)]" "[None]"] h7
  show ?thesis
    unfolding s ts lines hello_entry_kept after by simp
qed

section \<open>Properties of the plain Markdown export\<close>

lemma message_blocks_total:
  "list_all has_role_and_content msgs \<Longrightarrow> \<exists>body. message_blocks str_of msgs = Inr body"
proof (induction msgs)
  case Nil
  show ?case by simp
next
  case (Cons msg msgs)
  then obtain rest where rest: "message_blocks str_of msgs = Inr rest"
    by auto
  from Cons.prems obtain role content
    where "dict_get msg (ustr ''role'') = Some role" "dict_get msg (ustr ''content'') = Some content"
    by (auto simp: has_role_and_content_def)
  then show ?case
    by (simp add: rest)
qed

lemma display_date_first:
  "fst (display_date fromiso now (dict_get_or first (ustr ''timestamp'') (JStr [])))
     = strftime_date (case first_message_date fromiso first of Some dt \<Rightarrow> dt | None \<Rightarrow> now)"
proof (cases "dict_get first (ustr ''timestamp'')")
  case None
  then show ?thesis
    by (simp add: display_date_def first_message_date_def dict_get_or_def dict_get_def)
next
  case (Some v)
  then have v: "dict_get_or first (ustr ''timestamp'') (JStr []) = v"
    by (simp add: dict_get_or_def dict_get_def)
  show ?thesis
    unfolding v
    by (cases v) (simp_all add: display_date_def first_message_date_def Some split: option.splits)
qed

lemma ustr_Nil: "ustr [] = []"
  by (simp add: ustr_def)

lemma ustr_Cons: "ustr (c # cs) = of_char c # ustr cs"
  by (simp add: ustr_def)

lemma replace_Z_sample:
  "replace_Z (ustr ''2024-01-15T10:30:00Z'') = ustr ''2024-01-15T10:30:00+00:00''"
  by (simp add: replace_Z_def ustr_def)

lemma parse_date_sample: "parse_date (ustr ''2024-01-15'') = Some (2024, 1, 15)"
  by (simp add: parse_date_def ustr_def number_of_def is_digit_def days_in_month_def)

lemma parse_clock_sample: "parse_clock (ustr ''10:30:00'') = Some (10, 30, 0)"
  by (simp add: parse_clock_def ustr_def number_of_def is_digit_def)

lemma parse_offset_utc: "parse_offset (ustr ''+00:00'') = Some (Some 0)"
  by (simp add: parse_offset_def ustr_def number_of_def is_digit_def)

lemma iso_parse_sample:
  "iso_parse (ustr ''2024-01-15T10:30:00+00:00'')
     = Some \<lparr>dt_year = 2024, dt_month = 1, dt_day = 15, dt_hour = 10, dt_minute = 30,
             dt_second = 0, dt_micro = 0, dt_offset = Some 0\<rparr>"
proof -
  have d: "take 10 (ustr ''2024-01-15T10:30:00+00:00'') = ustr ''2024-01-15''"
    by (simp add: ustr_def)
  have r: "drop 10 (ustr ''2024-01-15T10:30:00+00:00'') = 84 # ustr ''10:30:00+00:00''"
    by (simp add: ustr_def)
  have c: "take 8 (ustr ''10:30:00+00:00'') = ustr ''10:30:00''"
    by (simp add: ustr_def)
  have f: "parse_fraction (drop 8 (ustr ''10:30:00+00:00'')) = Some (0, ustr ''+00:00'')"
    by (simp add: parse_fraction_def ustr_def)
  show ?thesis
    unfolding iso_parse_def d r
    by (simp add: parse_date_sample c parse_clock_sample f parse_offset_utc)
qed

lemma digits_small: "n < 10 \<Longrightarrow> digits n = [48 + n]"
  by (simp add: digits.simps)

lemma digits_step: "\<not> n < 10 \<Longrightarrow> digits n = digits (n div 10) @ [48 + n mod 10]"
  by (subst digits.simps) simp

lemma strftime_date_sample:
  "strftime_date \<lparr>dt_year = 2024, dt_month = 1, dt_day = 15, dt_hour = 10, dt_minute = 30,
             dt_second = 0, dt_micro = 0, dt_offset = Some 0\<rparr> = ustr ''2024-01-15''"
  by (simp add: strftime_date_def zero_pad_def digits_small digits_step ustr_def)

lemma strftime_date_export_day: "strftime_date export_day = ustr ''2026-11-04''"
  by (simp add: strftime_date_def export_day_def zero_pad_def digits_small digits_step ustr_def)

lemma first_message_date_sample:
  "first_message_date iso_parse (hd one_message_conversation)
     = Some \<lparr>dt_year = 2024, dt_month = 1, dt_day = 15, dt_hour = 10, dt_minute = 30,
             dt_second = 0, dt_micro = 0, dt_offset = Some 0\<rparr>"
proof -
  have "dict_get (hd one_message_conversation) (ustr ''timestamp'')
      = Some (JStr (ustr ''2024-01-15T10:30:00Z''))"
    by (simp add: one_message_conversation_def make_message_def dict_get_def ustr_def)
  moreover have "ustr ''2024-01-15T10:30:00Z'' \<noteq> []"
    by (simp add: ustr_def)
  ultimately show ?thesis
    by (simp add: first_message_date_def replace_Z_sample iso_parse_sample)
qed

lemma save_as_markdown_name:
  assumes "conversation \<noteq> []"
    and "list_all has_role_and_content conversation"
  shows "written_name (save_as_markdown fromiso now str_of output_dir conversation session_id)
     = Some (ustr ''claude-conversation-''
          @ strftime_date (case first_message_date fromiso (hd conversation) of
                             Some dt \<Rightarrow> dt | None \<Rightarrow> now)
          @ ustr ''-'' @ take 8 session_id @ ustr ''.md'')"
proof -
  from assms(1) obtain first rest where conv: "conversation = first # rest"
    by (cases conversation) auto
  from message_blocks_total [OF assms(2)]
  obtain body where body: "message_blocks str_of conversation = Inr body"
    by blast
  obtain date_str time_str
    where dd: "display_date fromiso now (dict_get_or first (ustr ''timestamp'') (JStr []))
                 = (date_str, time_str)"
    by (cases "display_date fromiso now (dict_get_or first (ustr ''timestamp'') (JStr []))")
  have "date_str = strftime_date (case first_message_date fromiso first of
                             Some dt \<Rightarrow> dt | None \<Rightarrow> now)"
    using display_date_first [of fromiso now first] by (simp add: dd)
  then show ?thesis
    using body
    by (simp add: save_as_markdown_def conv dd written_name_def markdown_filename_def
        del: message_blocks.simps)
qed

text \<open>
  Claim C1, as the code has it: for every non-empty conversation (of messages with a role
  and a content), \<open>save_as_markdown\<close> writes the file
  \<open>claude-conversation-{YYYY-MM-DD}-{first 8 characters of session_id}.md\<close>, where the date
  is that of the conversation's first-message timestamp when that timestamp is a
  non-empty string that parses, and the export day otherwise.
\<close>

theorem save_as_markdown_filename:
  assumes "conversation \<noteq> []"
    and "list_all has_role_and_content conversation"
  shows "written_name (save_as_markdown fromiso now str_of output_dir conversation session_id)
     = Some (ustr ''claude-conversation-''
          @ strftime_date (case first_message_date fromiso (hd conversation) of
                             Some dt \<Rightarrow> dt | None \<Rightarrow> now)
          @ ustr ''-'' @ take 8 session_id @ ustr ''.md'')"
  using assms by (rule save_as_markdown_name)

theorem save_as_markdown_filename_witness:
  "written_name (save_as_markdown iso_parse export_day py_str (ustr ''out'')
       one_message_conversation (ustr ''abcdefgh12345''))
     = Some (ustr ''claude-conversation-2024-01-15-abcdefgh.md'')"
proof -
  have h1: "one_message_conversation \<noteq> []"
    by (simp add: one_message_conversation_def)
  have h2: "list_all has_role_and_content one_message_conversation"
    by (simp add: one_message_conversation_def has_role_and_content_def make_message_def
        dict_get_def ustr_def)
  have n: "ustr ''claude-conversation-'' @ ustr ''2024-01-15'' @ ustr ''-''
        @ take 8 (ustr ''abcdefgh12345'') @ ustr ''.md''
      = ustr ''claude-conversation-2024-01-15-abcdefgh.md''"
    by (simp add: ustr_def)
  from save_as_markdown_filename [OF h1 h2, of iso_parse export_day py_str "ustr ''out''"
      "ustr ''abcdefgh12345''"]
  show ?thesis
    by (simp only: first_message_date_sample option.case strftime_date_sample n)
qed

text \<open>
  Claim C1 as stated, with the date always the export day, fails for a conversation whose
  first message is dated 15 January 2024 and that is exported on 4 November 2026: the file
  is named after the message's date.
\<close>

theorem save_as_markdown_export_day_counterexample:
  "written_name (save_as_markdown iso_parse export_day py_str (ustr ''out'')
       one_message_conversation (ustr ''abcdefgh12345''))
     \<noteq> Some (ustr ''claude-conversation-'' @ strftime_date export_day @ ustr ''-''
          @ take 8 (ustr ''abcdefgh12345'') @ ustr ''.md'')"
proof -
  have h1: "one_message_conversation \<noteq> []"
    by (simp add: one_message_conversation_def)
  have h2: "list_all has_role_and_content one_message_conversation"
    by (simp add: one_message_conversation_def has_role_and_content_def make_message_def
        dict_get_def ustr_def)
  have "written_name (save_as_markdown iso_parse export_day py_str (ustr ''out'')
       one_message_conversation (ustr ''abcdefgh12345''))
     = Some (ustr ''claude-conversation-'' @ ustr ''2024-01-15'' @ ustr ''-''
          @ take 8 (ustr ''abcdefgh12345'') @ ustr ''.md'')"
    using save_as_markdown_name [OF h1 h2, of iso_parse export_day py_str "ustr ''out''"
      "ustr ''abcdefgh12345''"]
    by (simp only: first_message_date_sample option.case strftime_date_sample)
  then show ?thesis
    by (simp add: strftime_date_export_day ustr_def)
qed

section \<open>Properties of the result cache\<close>

lemma map_of_dict_del:
  "map_of (dict_del k d) k' = (if k' = k then None else map_of d k')"
  by (induction d) (auto simp: dict_del_def)

lemma map_of_fold_dict_del:
  "map_of (fold dict_del ks d) k = (if k \<in> set ks then None else map_of d k)"
  by (induction ks arbitrary: d) (auto simp: map_of_dict_del)

lemma cache_after_trigger_search:
  "map_of (results_cache (trigger_search now s)) k
     = (if prefix (st_query s) k then map_of (results_cache s) k else None)"
proof (cases "k \<in> fst ` set (results_cache s)")
  case True
  then show ?thesis
    by (simp add: trigger_search_def map_of_fold_dict_del keys_to_remove_def)
next
  case False
  then have "map_of (results_cache s) k = None"
    by (simp add: map_of_eq_None_iff)
  then show ?thesis
    by (simp add: trigger_search_def map_of_fold_dict_del)
qed

text \<open>
  Claim C4, as the code has it: after every call to \<open>trigger_search\<close> the cache retains
  a previously cached entry if and only if the new query is a prefix of the entry's key
  (the key starts with the new query), with its results unchanged; every cached entry
  whose key does not start with the new query is evicted.
\<close>

theorem trigger_search_keeps_extensions_of_query:
  "map_of (results_cache (trigger_search now s)) k
     = (if prefix (st_query s) k then map_of (results_cache s) k else None)"
  by (rule cache_after_trigger_search)

theorem trigger_search_keeps_extensions_of_query_witness:
  "map_of (results_cache (trigger_search 1 typing_abc)) (ustr ''abcd'') = Some []
   \<and> map_of (results_cache (trigger_search 1 typing_abc)) (ustr ''ab'') = None"
proof -
  have p1: "prefix (st_query typing_abc) (ustr ''abcd'')"
    by (simp add: typing_abc_def ustr_def)
  have p2: "\<not> prefix (st_query typing_abc) (ustr ''ab'')"
    by (simp add: typing_abc_def ustr_def)
  have m: "map_of (results_cache typing_abc) (ustr ''abcd'') = Some []"
    by (simp add: typing_abc_def ustr_def)
  from trigger_search_keeps_extensions_of_query [of 1 typing_abc "ustr ''abcd''"]
    trigger_search_keeps_extensions_of_query [of 1 typing_abc "ustr ''ab''"]
  show ?thesis
    by (simp only: p1 p2 m if_True if_False simp_thms)
qed

text \<open>
  Claim C4 as stated, with an entry retained if and only if its key is a prefix of the new
  query, fails when the query grows from \<open>ab\<close> to \<open>abc\<close>: the key \<open>ab\<close> is a prefix of
  the new query and was cached, and it is evicted.
\<close>

theorem trigger_search_evicts_prefix_counterexample:
  "prefix (ustr ''ab'') (st_query typing_abc)
   \<and> map_of (results_cache typing_abc) (ustr ''ab'') \<noteq> None
   \<and> map_of (results_cache (trigger_search 1 typing_abc)) (ustr ''ab'') = None"
proof -
  have "\<not> prefix (st_query typing_abc) (ustr ''ab'')"
    by (simp add: typing_abc_def ustr_def)
  then have "map_of (results_cache (trigger_search 1 typing_abc)) (ustr ''ab'') = None"
    by (simp add: cache_after_trigger_search)
  moreover have "prefix (ustr ''ab'') (st_query typing_abc)"
    by (simp add: typing_abc_def ustr_def)
  moreover have "map_of (results_cache typing_abc) (ustr ''ab'') \<noteq> None"
    by (simp add: typing_abc_def ustr_def)
  ultimately show ?thesis by blast
qed

section \<open>Properties of the smart-search composition\<close>

subsection \<open>The stable descending sort\<close>

lemma filter_stable_sort_desc:
  "filter (\<lambda>y. f y = k) (stable_sort_desc f xs) = filter (\<lambda>y. f y = k) xs"
proof -
  have "filter (\<lambda>y. f y = k) (stable_sort_desc f xs)
      = rev (filter (\<lambda>y. f y = k) (sort_key f (rev xs)))"
    by (simp add: stable_sort_desc_def rev_filter)
  also have "\<dots> = rev (filter (\<lambda>y. f y = k) (rev xs))"
    by (simp only: sort_key_stable)
  also have "\<dots> = filter (\<lambda>y. f y = k) xs"
    by (simp add: rev_filter)
  finally show ?thesis .
qed

lemma stable_sort_desc_descending:
  assumes "stable_sort_desc f xs = us @ s # vs @ e # ws"
  shows "f e \<le> f s"
proof -
  have "sorted (map f (sort_key f (rev xs)))"
    by (rule sorted_sort_key)
  moreover have "sort_key f (rev xs) = rev ws @ e # rev vs @ s # rev us"
    using assms by (simp add: stable_sort_desc_def rev_swap)
  ultimately show ?thesis
    by (simp add: sorted_append)
qed

lemma count_filter_insort_key:
  "length (filter P (insort_key f x xs)) = length (filter P (x # xs))"
  by (induction xs) auto

lemma count_filter_sort_key:
  "length (filter P (sort_key f xs)) = length (filter P xs)"
  by (induction xs) (auto simp: count_filter_insort_key)

lemma count_filter_stable_sort_desc:
  "length (filter P (stable_sort_desc f xs)) = length (filter P xs)"
proof -
  have "length (filter P (stable_sort_desc f xs)) = length (filter P (sort_key f (rev xs)))"
    by (simp add: stable_sort_desc_def rev_filter [symmetric])
  also have "\<dots> = length (filter P (rev xs))"
    by (rule count_filter_sort_key)
  also have "\<dots> = length (filter P xs)"
    by (simp add: rev_filter [symmetric])
  finally show ?thesis .
qed

subsection \<open>Lists in two parts\<close>

lemma split_two_parts:
  assumes "A @ B = U @ s # V @ e # W"
  shows "s \<in> set A \<or> e \<in> set B"
proof (cases "length A \<le> length U")
  case True
  from assms have "B = drop (length A) (U @ s # V @ e # W)"
    by (metis append_eq_conv_conj)
  with True have "B = drop (length A) U @ s # V @ e # W"
    by simp
  then show ?thesis by simp
next
  case False
  from assms have "A = take (length A) (U @ s # V @ e # W)"
    by (metis append_eq_conv_conj)
  with False have "A = U @ take (length A - length U) (s # V @ e # W)"
    by simp
  moreover from False obtain n where "length A - length U = Suc n"
    by (cases "length A - length U") auto
  ultimately show ?thesis by simp
qed

lemma nth_split_two:
  assumes "j < i" "i < length xs"
  shows "\<exists>us vs ws. xs = us @ xs ! j # vs @ xs ! i # ws"
proof -
  from assms have j: "j < length xs" by simp
  have "xs = take j xs @ xs ! j # drop (Suc j) xs"
    using j by (rule id_take_nth_drop)
  moreover have "drop (Suc j) xs = take (i - Suc j) (drop (Suc j) xs)
      @ drop (Suc j) xs ! (i - Suc j) # drop (Suc (i - Suc j)) (drop (Suc j) xs)"
    using assms by (intro id_take_nth_drop) simp
  moreover have "drop (Suc j) xs ! (i - Suc j) = xs ! i"
    using assms by simp
  ultimately show ?thesis
    by metis
qed


subsection \<open>Descending and stable\<close>

lemma descending_stable_sort_desc: "descending f (stable_sort_desc f xs)"
proof -
  have "rev (map f (stable_sort_desc f xs)) = map f (sort_key f (rev xs))"
    by (simp add: stable_sort_desc_def rev_map)
  then show ?thesis
    unfolding descending_def by (simp only: sorted_sort_key)
qed

lemma same_key_order_stable_sort_desc: "same_key_order f xs (stable_sort_desc f xs)"
  by (simp add: same_key_order_def filter_stable_sort_desc)

lemma same_items_all: "same_items xs ys \<Longrightarrow> count_list xs x = count_list ys x"
proof -
  assume s: "same_items xs ys"
  show ?thesis
  proof (cases "x \<in> set (xs @ ys)")
    case True
    with s show ?thesis unfolding same_items_def by blast
  next
    case False
    then show ?thesis by simp
  qed
qed

lemma equal_counts_filter:
  "(\<And>x. count_list xs x = count_list ys x) \<Longrightarrow> length (filter P xs) = length (filter P ys)"
proof (induction xs arbitrary: ys)
  case Nil
  have "ys = []"
  proof (cases ys)
    case (Cons y ys')
    from Nil [of y] show ?thesis by (simp add: Cons)
  qed simp
  then show ?case by simp
next
  case (Cons a xs)
  from Cons.prems [of a] have "a \<in> set ys"
    by (metis count_list_0_iff count_list.simps(2) add_is_0 one_neq_zero)
  then obtain us vs where ys: "ys = us @ a # vs"
    by (auto dest: split_list)
  have "count_list xs x = count_list (us @ vs) x" for x
    using Cons.prems [of x] by (simp add: ys split: if_splits)
  then have "length (filter P xs) = length (filter P (us @ vs))"
    by (rule Cons.IH)
  then show ?case
    by (simp add: ys)
qed

lemma same_items_filter:
  "same_items xs ys \<Longrightarrow> length (filter P xs) = length (filter P ys)"
  by (rule equal_counts_filter) (rule same_items_all)

lemma same_items_stable_sort_desc: "same_items xs (stable_sort_desc f xs)"
  by (simp add: same_items_def count_list_eq_length_filter count_filter_stable_sort_desc)

lemma same_items_trans: "same_items xs ys \<Longrightarrow> same_items ys zs \<Longrightarrow> same_items xs zs"
  unfolding same_items_def using same_items_all by (metis same_items_def)

lemma same_items_refl: "same_items xs xs"
  by (simp add: same_items_def)

subsection \<open>The merged list\<close>

lemma add_new_not_yet_found: "add_new results found = results @ not_yet_found results found"
  by (simp add: add_new_def not_yet_found_def paths_of_def)

lemma not_yet_found_Nil: "not_yet_found results [] = []"
  by (simp add: not_yet_found_def)

lemma with_regex_merged:
  "with_regex searcher query kw results
     = results @ not_yet_found results
         (if looks_like_regex query then unless_fails (search searcher Regex query kw) else [])"
  by (simp add: with_regex_def unless_fails_def add_new_not_yet_found not_yet_found_Nil
      split: sum.splits)

lemma with_semantic_merged:
  "with_semantic searcher query kw results
     = results @ not_yet_found results
         (if nlp searcher then unless_fails (search searcher Semantic query kw) else [])"
  by (simp add: with_semantic_def unless_fails_def add_new_not_yet_found not_yet_found_Nil
      split: sum.splits)

lemma composition_merged:
  "with_semantic searcher query kw
     (add_new (with_regex searcher query kw exact_results) smart_results)
     = merged_results searcher query kw exact_results smart_results"
  by (simp add: merged_results_def Let_def with_regex_merged with_semantic_merged
      add_new_not_yet_found)

lemma paths_of_append: "paths_of (xs @ ys) = paths_of xs \<union> paths_of ys"
  by (simp add: paths_of_def)

lemma not_yet_found_paths:
  "r \<in> set (not_yet_found (ex @ rest) found) \<Longrightarrow> file_path r \<notin> paths_of ex"
  by (simp add: not_yet_found_def paths_of_append)

lemma merged_extends_exact:
  "extends_exact exact_results (merged_results searcher query kw exact_results smart_results)"
proof -
  define regex_new where "regex_new = not_yet_found exact_results
      (if looks_like_regex query then unless_fails (search searcher Regex query kw) else [])"
  define smart_new where "smart_new = not_yet_found (exact_results @ regex_new) smart_results"
  define semantic_new where "semantic_new
      = not_yet_found (exact_results @ regex_new @ smart_new)
          (if nlp searcher then unless_fails (search searcher Semantic query kw) else [])"
  have m: "merged_results searcher query kw exact_results smart_results
      = exact_results @ (regex_new @ smart_new @ semantic_new)"
    by (simp add: merged_results_def Let_def regex_new_def smart_new_def semantic_new_def)
  have "file_path r \<notin> paths_of exact_results" if "r \<in> set regex_new" for r
    using that not_yet_found_paths [of r exact_results "[]"] by (simp add: regex_new_def)
  moreover have "file_path r \<notin> paths_of exact_results" if "r \<in> set smart_new" for r
    using that unfolding smart_new_def by (rule not_yet_found_paths)
  moreover have "file_path r \<notin> paths_of exact_results" if "r \<in> set semantic_new" for r
    using that unfolding semantic_new_def by (rule not_yet_found_paths)
  ultimately have "\<forall>r \<in> set (regex_new @ smart_new @ semantic_new).
      file_path r \<notin> paths_of exact_results"
    by auto
  with m show ?thesis
    unfolding extends_exact_def by blast
qed

subsection \<open>The sort and the cut\<close>

lemma sort_results_comparable:
  "keys_comparable rs \<Longrightarrow> sort_results left_by_sort rs = stable_sort_desc sort_time rs"
  by (simp add: sort_results_def sort_by_timestamp_def sort_time_def [abs_def])

lemma sort_results_fallback:
  "\<not> keys_comparable rs \<Longrightarrow>
     sort_results left_by_sort rs
       = stable_sort_desc relevance_score
           (if same_items rs (left_by_sort rs) then left_by_sort rs else rs)"
  by (simp add: sort_results_def sort_by_timestamp_def)

lemma same_items_sort_results: "same_items rs (sort_results left_by_sort rs)"
proof (cases "keys_comparable rs")
  case True
  then show ?thesis
    by (simp add: sort_results_comparable same_items_stable_sort_desc)
next
  case False
  have "same_items rs (if same_items rs (left_by_sort rs) then left_by_sort rs else rs)"
    by (simp add: same_items_refl)
  then show ?thesis
    unfolding sort_results_fallback [OF False]
    by (rule same_items_trans) (rule same_items_stable_sort_desc)
qed

lemma sort_results_order:
  "if keys_comparable rs
   then descending sort_time (sort_results left_by_sort rs)
        \<and> same_key_order sort_time rs (sort_results left_by_sort rs)
   else descending relevance_score (sort_results left_by_sort rs)"
  by (simp add: sort_results_comparable sort_results_fallback descending_stable_sort_desc
      same_key_order_stable_sort_desc)

lemma smart_search_sorted_merged:
  assumes "search searcher Exact query kw = Inr exact_results"
    and "search searcher Smart query kw = Inr smart_results"
  shows "smart_search left_by_sort searcher query kw
     = Inr (slice_to (sort_results left_by_sort
                        (merged_results searcher query kw exact_results smart_results))
              (case max_results kw of None \<Rightarrow> 20 | Some n \<Rightarrow> n))"
  by (simp add: smart_search_def assms Let_def composition_merged)

lemma slice_to_take: "\<exists>n. slice_to xs k = take n xs"
  by (auto simp: slice_to_def)

lemma slice_to_all: "0 \<le> k \<Longrightarrow> int (length (slice_to xs k)) < k \<Longrightarrow> slice_to xs k = xs"
  by (auto simp: slice_to_def min_def split: if_splits)

lemma take_all_of: "take n xs = ys \<Longrightarrow> length ys < n \<Longrightarrow> xs = ys"
proof -
  assume t: "take n xs = ys" and l: "length ys < n"
  from t have "length ys = min (length xs) n" by auto
  with l have "length xs \<le> n" by (simp add: min_def split: if_splits)
  with t show ?thesis by simp
qed

lemma count_filter_take: "length (filter P (take n xs)) \<le> length (filter P xs)"
proof -
  have "length (filter P xs) = length (filter P (take n xs @ drop n xs))"
    by simp
  also have "\<dots> = length (filter P (take n xs)) + length (filter P (drop n xs))"
    by (simp only: filter_append length_append)
  finally show ?thesis by simp
qed

lemma path_count_merged:
  assumes "extends_exact ex merged" "p \<in> paths_of ex"
  shows "path_count p merged = path_count p ex"
proof -
  from assms(1) obtain rest
    where m: "merged = ex @ rest" and rest: "\<forall>r \<in> set rest. file_path r \<notin> paths_of ex"
    by (auto simp: extends_exact_def)
  from rest assms(2) have "filter (\<lambda>r. file_path r = p) rest = []"
    by (auto simp: filter_empty_conv)
  then show ?thesis
    by (simp add: path_count_def m)
qed

lemma order_in_output:
  assumes ext: "extends_exact ex merged"
    and i: "i < length (take n (stable_sort_desc sort_time merged))"
    and j: "j < length (take n (stable_sort_desc sort_time merged))"
    and pi: "file_path (take n (stable_sort_desc sort_time merged) ! i) \<in> paths_of ex"
    and pj: "file_path (take n (stable_sort_desc sort_time merged) ! j) \<notin> paths_of ex"
    and le: "sort_time (take n (stable_sort_desc sort_time merged) ! j)
               \<le> sort_time (take n (stable_sort_desc sort_time merged) ! i)"
  shows "i < j"
proof (rule ccontr)
  assume "\<not> i < j"
  moreover from pi pj have "i \<noteq> j" by auto
  ultimately have ji: "j < i" by simp
  define S where "S = stable_sort_desc sort_time merged"
  define out where "out = take n S"
  define a where "a = out ! j"
  define b where "b = out ! i"
  from nth_split_two [OF ji i [folded S_def out_def]]
  obtain us vs ws where o: "out = us @ a # vs @ b # ws"
    unfolding a_def b_def by blast
  obtain T where T: "S = out @ T"
    unfolding out_def by (metis append_take_drop_id)
  have S: "S = us @ a # vs @ b # (ws @ T)"
    unfolding T by (subst o) simp
  from stable_sort_desc_descending [OF S [unfolded S_def]]
  have "sort_time b \<le> sort_time a" .
  with le have eq: "sort_time a = sort_time b"
    by (simp add: out_def S_def a_def b_def)
  define k where "k = sort_time b"
  from ext obtain rest
    where m: "merged = ex @ rest" and rest: "\<forall>r \<in> set rest. file_path r \<notin> paths_of ex"
    by (auto simp: extends_exact_def)
  have "filter (\<lambda>y. sort_time y = k) S = filter (\<lambda>y. sort_time y = k) merged"
    unfolding S_def by (rule filter_stable_sort_desc)
  then have "filter (\<lambda>y. sort_time y = k) ex @ filter (\<lambda>y. sort_time y = k) rest
      = filter (\<lambda>y. sort_time y = k) us @ a # filter (\<lambda>y. sort_time y = k) vs
        @ b # filter (\<lambda>y. sort_time y = k) (ws @ T)"
    by (subst (asm) S) (simp add: m k_def eq)
  from split_two_parts [OF this]
  have "a \<in> set ex \<or> b \<in> set rest"
    by auto
  then show False
  proof
    assume "a \<in> set ex"
    then have "file_path a \<in> paths_of ex"
      by (simp add: paths_of_def)
    with pj show False by (simp add: out_def S_def a_def)
  next
    assume "b \<in> set rest"
    with rest have "file_path b \<notin> paths_of ex" by blast
    with pi show False by (simp add: out_def S_def b_def)
  qed
qed

subsection \<open>The sample searchers\<close>

lemma sort_time_result_a: "sort_time result_a = 1705314600000000"
  by (simp add: sort_time_def sort_key_of_def result_a_def dt_instant_def days_from_civil_def)

lemma sort_time_result_a2: "sort_time result_a2 = 1705314660000000"
  by (simp add: sort_time_def sort_key_of_def result_a2_def dt_instant_def days_from_civil_def)

lemma sort_time_result_b: "sort_time result_b = 1717228800000000"
  by (simp add: sort_time_def sort_key_of_def result_b_def dt_instant_def days_from_civil_def)

lemma sort_time_result_c: "sort_time result_c = 1705314600000000"
  by (simp add: sort_time_def sort_key_of_def result_c_def dt_instant_def days_from_civil_def)

lemma sort_time_result_d: "sort_time result_d = 1709283600000000"
  by (simp add: sort_time_def sort_key_of_def result_d_def dt_instant_def days_from_civil_def)

lemmas sort_times = sort_time_result_a sort_time_result_a2 sort_time_result_b sort_time_result_c
  sort_time_result_d

lemma paths_result_a_b:
  "file_path result_a = ustr ''a.jsonl''" "file_path result_b = ustr ''b.jsonl''"
  "file_path result_c = ustr ''c.jsonl''" "file_path result_a2 = ustr ''a.jsonl''"
  "file_path result_d = ustr ''d.jsonl''"
  "ustr ''b.jsonl'' \<noteq> ustr ''a.jsonl''" "ustr ''c.jsonl'' \<noteq> ustr ''a.jsonl''"
  "ustr ''d.jsonl'' \<noteq> ustr ''a.jsonl''" "ustr ''b.jsonl'' \<noteq> ustr ''d.jsonl''"
  by (simp_all add: result_a_def result_b_def result_c_def result_a2_def result_d_def ustr_def)

lemma naive_samples:
  "\<not> dt_aware (sort_key_of result_a)" "\<not> dt_aware (sort_key_of result_a2)"
  "\<not> dt_aware (sort_key_of result_b)" "\<not> dt_aware (sort_key_of result_c)"
  "\<not> dt_aware (sort_key_of result_d)"
  by (simp_all add: sort_key_of_def result_a_def result_a2_def result_b_def result_c_def
      result_d_def dt_aware_def)

lemma two_file_searcher_modes:
  "search two_file_searcher Exact query kw = Inr [result_a]"
  "search two_file_searcher Smart query kw = Inr [result_a, result_b]"
  "search two_file_searcher Regex query kw = Inr []"
  "search two_file_searcher Semantic query kw = Inr []"
  "nlp two_file_searcher = False"
  by (simp_all add: two_file_searcher_def)

lemma three_file_searcher_modes:
  "search three_file_searcher Exact query kw = Inr [result_a]"
  "search three_file_searcher Smart query kw = Inr [result_c, result_a, result_b]"
  "nlp three_file_searcher = False"
  by (simp_all add: three_file_searcher_def)

lemma two_match_searcher_modes:
  "search two_match_searcher Exact query kw = Inr [result_a, result_a2]"
  "search two_match_searcher Smart query kw = Inr [result_a]"
  "nlp two_match_searcher = False"
  by (simp_all add: two_match_searcher_def)

lemma two_exact_searcher_modes:
  "search two_exact_searcher Exact query kw = Inr [result_a, result_d]"
  "search two_exact_searcher Smart query kw = Inr [result_a, result_b]"
  "nlp two_exact_searcher = False"
  by (simp_all add: two_exact_searcher_def)

lemma python_is_no_regex: "\<not> looks_like_regex (ustr ''python'')"
  by (simp add: looks_like_regex_def regex_metacharacters_def ustr_def)

lemma merged_two_files:
  "merged_results two_file_searcher (ustr ''python'') kw [result_a] [result_a, result_b]
     = [result_a, result_b]"
  by (simp add: merged_results_def python_is_no_regex two_file_searcher_modes
      not_yet_found_def paths_of_def paths_result_a_b)

lemma merged_three_files:
  "merged_results three_file_searcher (ustr ''python'') kw [result_a]
     [result_c, result_a, result_b] = [result_a, result_c, result_b]"
  by (simp add: merged_results_def python_is_no_regex three_file_searcher_modes
      not_yet_found_def paths_of_def paths_result_a_b)

lemma merged_two_matches:
  "merged_results two_match_searcher (ustr ''python'') kw [result_a, result_a2] [result_a]
     = [result_a, result_a2]"
  by (simp add: merged_results_def python_is_no_regex two_match_searcher_modes
      not_yet_found_def paths_of_def paths_result_a_b)

lemma merged_two_exact:
  "merged_results two_exact_searcher (ustr ''python'') kw [result_a, result_d]
     [result_a, result_b] = [result_a, result_d, result_b]"
  by (simp add: merged_results_def python_is_no_regex two_exact_searcher_modes
      not_yet_found_def paths_of_def paths_result_a_b)

lemma sorted_two_exact:
  "sort_results left_by_sort [result_a, result_d, result_b] = [result_b, result_d, result_a]"
proof -
  have "keys_comparable [result_a, result_d, result_b]"
    by (simp add: keys_comparable_def naive_samples)
  then show ?thesis
    by (simp add: sort_results_comparable stable_sort_desc_def sort_times)
qed

lemma sorted_two_files:
  "sort_results left_by_sort [result_a, result_b] = [result_b, result_a]"
proof -
  have "keys_comparable [result_a, result_b]"
    by (simp add: keys_comparable_def naive_samples)
  then show ?thesis
    by (simp add: sort_results_comparable stable_sort_desc_def sort_times)
qed

lemma sorted_three_files:
  "sort_results left_by_sort [result_a, result_c, result_b] = [result_b, result_a, result_c]"
proof -
  have "keys_comparable [result_a, result_c, result_b]"
    by (simp add: keys_comparable_def naive_samples)
  then show ?thesis
    by (simp add: sort_results_comparable stable_sort_desc_def sort_times)
qed

lemma sorted_two_matches:
  "sort_results left_by_sort [result_a, result_a2] = [result_a2, result_a]"
proof -
  have "keys_comparable [result_a, result_a2]"
    by (simp add: keys_comparable_def naive_samples)
  then show ?thesis
    by (simp add: sort_results_comparable stable_sort_desc_def sort_times)
qed

lemma smart_search_two_files:
  "smart_search left_by_sort two_file_searcher (ustr ''python'') no_kwargs
     = Inr [result_b, result_a]"
  by (simp add: smart_search_sorted_merged [OF two_file_searcher_modes(1,2)]
      merged_two_files sorted_two_files slice_to_def no_kwargs_def)

lemma smart_search_two_exact:
  "smart_search left_by_sort two_exact_searcher (ustr ''python'') two_at_most
     = Inr [result_b, result_d]"
  by (simp add: smart_search_sorted_merged [OF two_exact_searcher_modes(1,2)]
      merged_two_exact sorted_two_exact slice_to_def two_at_most_def)

lemma smart_search_three_files:
  "smart_search left_by_sort three_file_searcher (ustr ''python'') no_kwargs
     = Inr [result_b, result_a, result_c]"
  by (simp add: smart_search_sorted_merged [OF three_file_searcher_modes(1,2)]
      merged_three_files sorted_three_files slice_to_def no_kwargs_def)

lemma smart_search_two_matches:
  "smart_search left_by_sort two_match_searcher (ustr ''python'') no_kwargs
     = Inr [result_a2, result_a]"
  by (simp add: smart_search_sorted_merged [OF two_match_searcher_modes(1,2)]
      merged_two_matches sorted_two_matches slice_to_def no_kwargs_def)

text \<open>
  Claim C5, as the code has it: for every searcher and every query for which the exact
  and the smart mode both return a result with the same file path, the composition
  returns the merged results (the union in priority order, de-duplicated by file path),
  sorted and cut to \<open>max_results\<close> (20 when not given). The sort rearranges the merged
  list. When the timestamps of the merged results can be compared (all of them aware, or
  all of them naive or absent) it puts them in descending order of timestamp, newest
  first, and it is stable: results with the same timestamp stay in the order of the
  merge. Otherwise the list comes in descending order of relevance score. No result of
  another mode with the path is added: the merged list holds the path as often as the
  exact mode returned it, the output at most as often, and exactly as often when
  \<open>max_results\<close> cuts nothing off (so exactly once when the exact mode returned it once).
  When the timestamps can be compared, an entry with that path precedes every result
  whose path the exact mode did not return (every smart-only result among them) and whose
  timestamp is not later than its own.
\<close>

theorem smart_search_keeps_exact_entry:
  assumes "search searcher Exact query kw = Inr exact_results"
    and "search searcher Smart query kw = Inr smart_results"
    and "p \<in> paths_of exact_results"
    and "p \<in> paths_of smart_results"
  shows "\<exists>merged ranked out.
       merged = merged_results searcher query kw exact_results smart_results
     \<and> smart_search left_by_sort searcher query kw = Inr out
     \<and> out = slice_to ranked (case max_results kw of None \<Rightarrow> 20 | Some n \<Rightarrow> n)
     \<and> same_items merged ranked
     \<and> (if keys_comparable merged
        then descending sort_time ranked \<and> same_key_order sort_time merged ranked
        else descending relevance_score ranked)
     \<and> path_count p merged = path_count p exact_results
     \<and> path_count p out \<le> path_count p exact_results
     \<and> ((case max_results kw of
            None \<Rightarrow> int (length out) < 20
          | Some n \<Rightarrow> 0 \<le> n \<and> int (length out) < n)
         \<longrightarrow> path_count p out = path_count p exact_results)
     \<and> (keys_comparable merged \<longrightarrow> precedes_not_later p exact_results out)"
proof -
  define limit where "limit = (case max_results kw of None \<Rightarrow> 20 | Some n \<Rightarrow> n)"
  define merged where "merged = merged_results searcher query kw exact_results smart_results"
  define ranked where "ranked = sort_results left_by_sort merged"
  define out where "out = slice_to ranked limit"
  have res: "smart_search left_by_sort searcher query kw = Inr out"
    unfolding out_def ranked_def merged_def limit_def
    by (rule smart_search_sorted_merged [OF assms(1,2)])
  have ext: "extends_exact exact_results merged"
    unfolding merged_def by (rule merged_extends_exact)
  have items: "same_items merged ranked"
    unfolding ranked_def by (rule same_items_sort_results)
  have order: "if keys_comparable merged
        then descending sort_time ranked \<and> same_key_order sort_time merged ranked
        else descending relevance_score ranked"
    unfolding ranked_def by (rule sort_results_order)
  have cm: "path_count p merged = path_count p exact_results"
    by (rule path_count_merged [OF ext assms(3)])
  have cr: "path_count p ranked = path_count p exact_results"
    using same_items_filter [OF items, of "\<lambda>r. file_path r = p"] cm
    by (simp add: path_count_def)
  obtain n where n: "out = take n ranked"
    unfolding out_def using slice_to_take by blast
  have "path_count p (take n ranked) \<le> path_count p ranked"
    unfolding path_count_def by (rule count_filter_take)
  then have c1: "path_count p out \<le> path_count p exact_results"
    by (simp add: n cr)
  have c2: "path_count p out = path_count p exact_results"
    if "case max_results kw of None \<Rightarrow> int (length out) < 20
          | Some n \<Rightarrow> 0 \<le> n \<and> int (length out) < n"
  proof -
    from that have "0 \<le> limit \<and> int (length out) < limit"
      by (auto simp: limit_def split: option.splits)
    then have "out = ranked"
      unfolding out_def using slice_to_all by blast
    then show ?thesis by (simp add: cr)
  qed
  have c3: "precedes_not_later p exact_results out" if kc: "keys_comparable merged"
  proof -
    have r: "ranked = stable_sort_desc sort_time merged"
      unfolding ranked_def by (rule sort_results_comparable [OF kc])
    have "i < j"
      if "i < length out" "j < length out"
        "file_path (out ! i) = p" "file_path (out ! j) \<notin> paths_of exact_results"
        "sort_time (out ! j) \<le> sort_time (out ! i)" for i j
      using order_in_output [OF ext, of i n j] that assms(3)
      by (simp add: n r)
    then show ?thesis
      unfolding precedes_not_later_def by blast
  qed
  have "merged = merged_results searcher query kw exact_results smart_results
     \<and> smart_search left_by_sort searcher query kw = Inr out
     \<and> out = slice_to ranked limit
     \<and> same_items merged ranked
     \<and> (if keys_comparable merged
        then descending sort_time ranked \<and> same_key_order sort_time merged ranked
        else descending relevance_score ranked)
     \<and> path_count p merged = path_count p exact_results
     \<and> path_count p out \<le> path_count p exact_results
     \<and> ((case max_results kw of
            None \<Rightarrow> int (length out) < 20
          | Some n \<Rightarrow> 0 \<le> n \<and> int (length out) < n)
         \<longrightarrow> path_count p out = path_count p exact_results)
     \<and> (keys_comparable merged \<longrightarrow> precedes_not_later p exact_results out)"
    using merged_def res out_def items order cm c1 c2 c3 by blast
  then show ?thesis
    unfolding limit_def by blast
qed

theorem smart_search_keeps_exact_entry_witness:
  "smart_search id three_file_searcher (ustr ''python'') no_kwargs
     = Inr [result_b, result_a, result_c]
   \<and> path_count (ustr ''a.jsonl'') [result_b, result_a, result_c] = 1
   \<and> descending sort_time [result_b, result_a, result_c]
   \<and> same_key_order sort_time [result_a, result_c, result_b] [result_b, result_a, result_c]
   \<and> precedes_not_later (ustr ''a.jsonl'') [result_a] [result_b, result_a, result_c]
   \<and> file_path ([result_b, result_a, result_c] ! 1) = ustr ''a.jsonl''
   \<and> file_path ([result_b, result_a, result_c] ! 2) \<notin> paths_of [result_a]
   \<and> sort_time ([result_b, result_a, result_c] ! 2)
       \<le> sort_time ([result_b, result_a, result_c] ! 1)"
proof -
  have h1: "search three_file_searcher Exact (ustr ''python'') no_kwargs = Inr [result_a]"
    by (rule three_file_searcher_modes)
  have h2: "search three_file_searcher Smart (ustr ''python'') no_kwargs
      = Inr [result_c, result_a, result_b]"
    by (rule three_file_searcher_modes)
  have h3: "ustr ''a.jsonl'' \<in> paths_of [result_a]"
    by (simp add: paths_of_def paths_result_a_b)
  have h4: "ustr ''a.jsonl'' \<in> paths_of [result_c, result_a, result_b]"
    by (simp add: paths_of_def paths_result_a_b)
  have c: "path_count (ustr ''a.jsonl'') [result_a] = 1"
    by (simp add: path_count_def paths_result_a_b)
  have m: "max_results no_kwargs = None"
    by (simp add: no_kwargs_def)
  have kc: "keys_comparable [result_a, result_c, result_b]"
    by (simp add: keys_comparable_def naive_samples)
  from smart_search_keeps_exact_entry [OF h1 h2 h3 h4, where left_by_sort = id]
  obtain merged ranked out
    where merged: "merged = merged_results three_file_searcher (ustr ''python'') no_kwargs
                      [result_a] [result_c, result_a, result_b]"
      and res: "smart_search id three_file_searcher (ustr ''python'') no_kwargs = Inr out"
      and cut': "out = slice_to ranked (case max_results no_kwargs of None \<Rightarrow> 20 | Some n \<Rightarrow> n)"
      and order': "if keys_comparable merged
        then descending sort_time ranked \<and> same_key_order sort_time merged ranked
        else descending relevance_score ranked"
      and counted': "(case max_results no_kwargs of
            None \<Rightarrow> int (length out) < 20
          | Some n \<Rightarrow> 0 \<le> n \<and> int (length out) < n)
         \<longrightarrow> path_count (ustr ''a.jsonl'') out = path_count (ustr ''a.jsonl'') [result_a]"
      and first': "keys_comparable merged
          \<longrightarrow> precedes_not_later (ustr ''a.jsonl'') [result_a] out"
    by blast
  from merged have merged: "merged = [result_a, result_c, result_b]"
    by (simp only: merged_three_files)
  from cut' have cut: "out = slice_to ranked 20"
    by (simp only: m option.case)
  from order' kc have order: "descending sort_time ranked"
    "same_key_order sort_time [result_a, result_c, result_b] ranked"
    by (simp_all only: merged if_True)
  from counted' have counted: "int (length out) < 20 \<longrightarrow> path_count (ustr ''a.jsonl'') out = 1"
    by (simp only: m option.case c)
  from first' [unfolded merged] kc
  have first: "precedes_not_later (ustr ''a.jsonl'') [result_a] out"
    by (rule mp)
  from res have out: "out = [result_b, result_a, result_c]"
    by (simp add: smart_search_three_files)
  from cut have "take 20 ranked = out"
    by (simp add: slice_to_def)
  then have ranked: "ranked = out"
    by (rule take_all_of) (simp add: out)
  have "file_path ([result_b, result_a, result_c] ! 1) = ustr ''a.jsonl''
   \<and> file_path ([result_b, result_a, result_c] ! 2) \<notin> paths_of [result_a]
   \<and> sort_time ([result_b, result_a, result_c] ! 2)
       \<le> sort_time ([result_b, result_a, result_c] ! 1)"
    by (simp add: paths_result_a_b paths_of_def sort_times)
  note met = this
  from counted have "path_count (ustr ''a.jsonl'') [result_b, result_a, result_c] = 1"
    unfolding out by simp
  moreover note res [unfolded out] order [unfolded ranked out] first [unfolded out] met
  ultimately show ?thesis
    by blast
qed

text \<open>
  Claim C5 as stated fails. For the two-file searcher \<open>a.jsonl\<close> is returned by the exact
  and by the smart mode, \<open>b.jsonl\<close> by the smart mode only, and the output lists
  \<open>b.jsonl\<close>, the more recent one, first. For the searcher asked for two results at
  most, \<open>a.jsonl\<close> is returned by both modes and is the oldest of three files: the output
  holds the two others and \<open>a.jsonl\<close> not once. For the searcher whose exact mode finds
  two matches in \<open>a.jsonl\<close>, the output holds that path twice.
\<close>

theorem smart_search_order_counterexample:
  "smart_search id two_file_searcher (ustr ''python'') no_kwargs = Inr [result_b, result_a]
   \<and> \<not> precedes_new_paths (ustr ''a.jsonl'') [result_a] [result_b, result_a]
   \<and> smart_search id two_exact_searcher (ustr ''python'') two_at_most
       = Inr [result_b, result_d]
   \<and> path_count (ustr ''a.jsonl'') [result_b, result_d] = 0
   \<and> smart_search id two_match_searcher (ustr ''python'') no_kwargs
       = Inr [result_a2, result_a]
   \<and> path_count (ustr ''a.jsonl'') [result_a2, result_a] = 2"
proof -
  have "\<not> precedes_new_paths (ustr ''a.jsonl'') [result_a] [result_b, result_a]"
  proof
    assume "precedes_new_paths (ustr ''a.jsonl'') [result_a] [result_b, result_a]"
    then have "file_path ([result_b, result_a] ! 1) = ustr ''a.jsonl''
        \<and> file_path ([result_b, result_a] ! 0) \<notin> paths_of [result_a] \<longrightarrow> (1::nat) < 0"
      unfolding precedes_new_paths_def by (metis length_Cons list.size(3) lessI zero_less_Suc One_nat_def)
    then show False
      by (simp add: paths_of_def paths_result_a_b)
  qed
  moreover have "path_count (ustr ''a.jsonl'') [result_b, result_d] = 0"
    "path_count (ustr ''a.jsonl'') [result_a2, result_a] = 2"
    by (simp_all add: path_count_def paths_result_a_b)
  ultimately show ?thesis
    using smart_search_two_files [of id] smart_search_two_exact [of id]
      smart_search_two_matches [of id] by blast
qed

section \<open>Properties of detailed extraction\<close>

lemma scan_items_no_tool_result:
  assumes "list_all (\<lambda>v. \<not> is_tool_result_block v) items"
  shows "scan_items entry ts items content
     = Inr (if text_parts items = [] then content else last (text_parts items))"
  using assms
proof (induction entry ts items content rule: scan_items.induct)
  case (3 entry ts item items content)
  then show ?case
    by (auto simp: is_tool_result_block_def)
qed simp_all

lemma detailed_parts_no_text_block:
  "text_parts items = [] \<Longrightarrow> detailed_parts items = map JStr (string_items items)"
  by (induction items rule: detailed_parts.induct)
     (auto simp: string_items_def split: if_splits)

lemma as_strs_JStr: "as_strs (map JStr ss) = Some ss"
  by (induction ss) simp_all

lemma user_entry_list_content:
  assumes "dict_get entry (ustr ''message'') = Some (JObj message_data)"
    and "dict_get message_data (ustr ''content'') = Some (JArr items)"
    and "list_all (\<lambda>v. \<not> is_tool_result_block v) items"
  shows "process_user_entry str_of entry ts
     = (case text_parts items of
          [] \<Rightarrow> Inr (UserMessage (py_join [10] (string_items items)) ts)
        | _ \<Rightarrow> user_message str_of (last (text_parts items)) ts)"
proof -
  have m: "dict_get_or entry (ustr ''message'') JNull = JObj message_data"
    using assms(1) by (simp add: dict_get_or_def dict_get_def)
  have c: "dict_get_or message_data (ustr ''content'') (JStr []) = JArr items"
    using assms(2) by (simp add: dict_get_or_def dict_get_def)
  show ?thesis
  proof (cases "text_parts items")
    case Nil
    then have "user_message str_of (JArr items) ts
        = Inr (UserMessage (py_join [10] (string_items items)) ts)"
      by (simp add: user_message_def join_values_def detailed_parts_no_text_block as_strs_JStr)
    then show ?thesis
      by (simp add: process_user_entry_def m c scan_items_no_tool_result [OF assms(3)] Nil)
  next
    case (Cons t ts')
    then show ?thesis
      by (simp add: process_user_entry_def m c scan_items_no_tool_result [OF assms(3)])
  qed
qed

text \<open>
  Claim C3, as the code has it: in detailed extraction, for every user entry whose message
  content is a list containing no \<open>tool_result\<close>-typed block, the plain string items are
  skipped by the scan and each text-typed block overwrites the text recovered so far, so
  the content of the returned user message is the text of the last text-typed block;
  when the list has no text-typed block, it is the newline-join of the list's string
  items.
\<close>

theorem user_entry_last_text_block_wins:
  assumes "dict_get entry (ustr ''message'') = Some (JObj message_data)"
    and "dict_get message_data (ustr ''content'') = Some (JArr items)"
    and "list_all (\<lambda>v. \<not> is_tool_result_block v) items"
  shows "process_user_entry str_of entry ts
     = (case text_parts items of
          [] \<Rightarrow> Inr (UserMessage (py_join [10] (string_items items)) ts)
        | _ \<Rightarrow> user_message str_of (last (text_parts items)) ts)"
  using assms by (rule user_entry_list_content)

lemma text_then_string_facts:
  "dict_get text_then_string_entry (ustr ''message'')
     = Some (JObj [(ustr ''role'', JStr (ustr ''user'')),
                   (ustr ''content'', JArr text_then_string)])"
  "dict_get [(ustr ''role'', JStr (ustr ''user'')), (ustr ''content'', JArr text_then_string)]
     (ustr ''content'') = Some (JArr text_then_string)"
  "list_all (\<lambda>v. \<not> is_tool_result_block v) text_then_string"
  "text_parts text_then_string = [JStr (ustr ''first'')]"
  "textual_items text_then_string = [JStr (ustr ''first''), JStr (ustr ''second'')]"
  by (simp_all add: text_then_string_entry_def text_then_string_def dict_get_def
      dict_get_or_def is_tool_result_block_def ustr_def)

theorem user_entry_last_text_block_wins_witness:
  "process_user_entry py_str text_then_string_entry None
     = Inr (UserMessage (ustr ''first'') None)"
  using user_entry_last_text_block_wins [OF text_then_string_facts(1-3), of py_str None]
  by (simp add: text_then_string_facts(4) user_message_def)

text \<open>
  Claim C3 as stated, with the last textual item winning also when it is a plain string,
  fails on the content \<open>[{"type": "text", "text": "first"}, "second"]\<close>: the last textual
  item is the string \<open>second\<close>, and the message returned has the content \<open>first\<close>.
\<close>

theorem user_entry_plain_string_counterexample:
  "last (textual_items text_then_string) = JStr (ustr ''second'')
   \<and> process_user_entry py_str text_then_string_entry None
       = Inr (UserMessage (ustr ''first'') None)
   \<and> ustr ''first'' \<noteq> ustr ''second''"
proof -
  have "process_user_entry py_str text_then_string_entry None
       = Inr (UserMessage (ustr ''first'') None)"
    using user_entry_list_content [OF text_then_string_facts(1-3), of py_str None]
    by (simp add: text_then_string_facts(4) user_message_def)
  moreover have "ustr ''first'' \<noteq> ustr ''second''"
    by (simp add: ustr_def)
  ultimately show ?thesis
    by (simp add: text_then_string_facts(5))
qed

section \<open>Properties of the Markdown transcript\<close>

lemma then_write_Inr:
  "then_write a b = Inr t \<longleftrightarrow> (\<exists>x y. a = Inr x \<and> b = Inr y \<and> t = x @ y)"
  by (auto simp: then_write_def split: sum.splits)

lemma then_write_InrE:
  assumes "then_write a b = Inr t"
  obtains x y where "a = Inr x" "b = Inr y" "t = x @ y"
  using assms by (auto simp: then_write_def split: sum.splits)

lemma then_write_simps:
  "then_write (Inr x) (Inr y) = Inr (x @ y)"
  "then_write (Inl e) b = Inl e"
  by (simp_all add: then_write_def)

lemma render_messages_contains:
  assumes "render_messages lib include_system include_raw_json messages = Inr t"
    and "msg \<in> set messages"
  shows "\<exists>pre block post. render_message lib include_system include_raw_json msg = Inr block
     \<and> t = pre @ block @ post"
  using assms
proof (induction messages arbitrary: t)
  case Nil
  then show ?case by simp
next
  case (Cons m ms)
  from Cons.prems(1) obtain x y
    where x: "render_message lib include_system include_raw_json m = Inr x"
      and y: "render_messages lib include_system include_raw_json ms = Inr y"
      and t: "t = x @ y"
    by (auto simp: then_write_Inr)
  show ?case
  proof (cases "msg = m")
    case True
    with x t have "render_message lib include_system include_raw_json msg = Inr x
        \<and> t = [] @ x @ y"
      by simp
    then show ?thesis by blast
  next
    case False
    with Cons.prems(2) have "msg \<in> set ms" by simp
    from Cons.IH [OF y this] obtain pre block post
      where "render_message lib include_system include_raw_json msg = Inr block"
        and "y = pre @ block @ post"
      by blast
    with t have "render_message lib include_system include_raw_json msg = Inr block
        \<and> t = (x @ pre) @ block @ post"
      by simp
    then show ?thesis by blast
  qed
qed

lemma stdout_block_string:
  "s \<noteq> [] \<Longrightarrow> stdout_block (JStr s)
     = Inr (ustr ''**Output:**'' @ [10] @ ustr ''```'' @ [10] @ shown_output s
            @ [10] @ ustr ''```'' @ [10, 10])"
  by (simp add: stdout_block_def shown_output_def MAX_CONTENT_DISPLAY_def
      TRUNCATION_INDICATOR_def)

lemma stderr_block_total: "str_or_false v \<Longrightarrow> \<exists>e. stderr_block v = Inr e"
  by (cases v) (auto simp: stderr_block_def str_or_false_def)

lemma tool_result_block_output:
  assumes "tr_stdout r = JStr s" "s \<noteq> []"
    and "tool_result_block lib r ts = Inr block"
  shows "\<exists>pre post. block = pre @ ustr ''**Output:**'' @ [10] @ ustr ''```'' @ [10]
            @ shown_output s @ [10] @ ustr ''```'' @ [10, 10] @ post"
proof -
  define shown where "shown = ustr ''**Output:**'' @ [10] @ ustr ''```'' @ [10]
            @ shown_output s @ [10] @ ustr ''```'' @ [10, 10]"
  have so: "stdout_block (tr_stdout r) = Inr shown"
    unfolding assms(1) shown_def by (rule stdout_block_string [OF assms(2)])
  from assms(3) [unfolded tool_result_block_def so]
  obtain h y where "block = h @ y"
    and y: "then_write (Inr shown)
              (then_write (stderr_block (tr_stderr r)) (Inr (content_block lib r))) = Inr y"
    by (rule then_write_InrE)
  from y obtain o' z where "Inr shown = (Inr o' :: py_error + ustring)" "y = o' @ z"
    by (rule then_write_InrE)
  then have "y = shown @ z" by simp
  with \<open>block = h @ y\<close> have "block = h @ shown @ z" by simp
  then have "block = h @ ustr ''**Output:**'' @ [10] @ ustr ''```'' @ [10]
            @ shown_output s @ [10] @ ustr ''```'' @ [10, 10] @ z"
    by (simp add: shown_def)
  then show ?thesis by blast
qed

lemma transcript_contains_output:
  assumes "save_detailed_markdown lib now include_system include_raw_json messages
             = Inr transcript"
    and "ToolResultMessage r ts \<in> set messages"
    and "tr_stdout r = JStr s" "s \<noteq> []"
  shows "\<exists>pre post. transcript = pre @ ustr ''**Output:**'' @ [10] @ ustr ''```'' @ [10]
            @ shown_output s @ [10] @ ustr ''```'' @ [10, 10] @ post"
proof -
  define shown where "shown = ustr ''**Output:**'' @ [10] @ ustr ''```'' @ [10]
            @ shown_output s @ [10] @ ustr ''```'' @ [10, 10]"
  from assms(1) [unfolded save_detailed_markdown_def]
  obtain h body
    where body: "render_messages lib include_system include_raw_json messages = Inr body"
      and t: "transcript = h @ body"
    by (rule then_write_InrE)
  from render_messages_contains [OF body assms(2)] obtain pre block post
    where b: "render_message lib include_system include_raw_json (ToolResultMessage r ts)
                = Inr block"
      and body': "body = pre @ block @ post"
    by blast
  from b [unfolded render_message.simps]
  obtain block' rule' where b': "tool_result_block lib r ts = Inr block'"
    and bl: "block = block' @ rule'"
    by (rule then_write_InrE)
  from tool_result_block_output [OF assms(3,4) b'] obtain pre' post'
    where "block' = pre' @ shown @ post'"
    unfolding shown_def by auto
  with t body' bl have "transcript = (h @ pre @ pre') @ shown @ (post' @ rule' @ post)"
    by simp
  then have "\<exists>pre post. transcript = pre @ shown @ post"
    by blast
  then show ?thesis
    by (simp add: shown_def)
qed

lemma tool_result_transcript_total:
  assumes "tr_stdout r = JStr s" "str_or_false (tr_stderr r)"
  shows "\<exists>transcript. save_detailed_markdown lib now include_system include_raw_json
            [ToolResultMessage r ts] = Inr transcript"
proof -
  obtain o_text where o: "stdout_block (JStr s) = Inr o_text"
    by (cases "s = []") (simp_all add: stdout_block_def)
  from stderr_block_total [OF assms(2)] obtain e where e: "stderr_block (tr_stderr r) = Inr e"
    by blast
  show ?thesis
    by (simp add: save_detailed_markdown_def tool_result_block_def assms(1) o e
        then_write_simps)
qed

text \<open>
  Claim C8: in \<open>save_detailed_markdown\<close>, for every tool-result message carrying a
  (non-empty) standard output: the transcript written holds, inside the output fence, the
  first 2000 characters of the output immediately followed by the marker
  \<open>"\n... (truncated)"\<close> when the output is longer than 2000 characters, and the whole
  output, followed at once by the end of the fence, when it has 2000 characters or
  fewer. The transcript of such a message is written whenever its standard error is a
  string or absent.
\<close>

theorem tool_output_truncated_at_2000:
  assumes "tr_stdout r = JStr s" and "s \<noteq> []"
  shows "(str_or_false (tr_stderr r) \<longrightarrow>
            (\<exists>transcript. save_detailed_markdown lib now include_system include_raw_json
                [ToolResultMessage r ts] = Inr transcript))
     \<and> (\<forall>messages transcript.
           save_detailed_markdown lib now include_system include_raw_json messages
             = Inr transcript
           \<and> ToolResultMessage r ts \<in> set messages \<longrightarrow>
           (\<exists>pre post. transcript
                = pre @ ustr ''**Output:**'' @ [10] @ ustr ''```'' @ [10]
                  @ (if length s > 2000
                     then take 2000 s @ [10] @ ustr ''... (truncated)''
                     else s)
                  @ [10] @ ustr ''```'' @ [10, 10] @ post))"
proof (intro conjI impI allI)
  assume "str_or_false (tr_stderr r)"
  with assms(1) show "\<exists>transcript. save_detailed_markdown lib now include_system
      include_raw_json [ToolResultMessage r ts] = Inr transcript"
    by (rule tool_result_transcript_total)
next
  fix messages transcript
  assume "save_detailed_markdown lib now include_system include_raw_json messages
             = Inr transcript \<and> ToolResultMessage r ts \<in> set messages"
  then have "\<exists>pre post. transcript = pre @ ustr ''**Output:**'' @ [10] @ ustr ''```'' @ [10]
            @ shown_output s @ [10] @ ustr ''```'' @ [10, 10] @ post"
    using assms by (blast intro: transcript_contains_output)
  then show "\<exists>pre post. transcript
                = pre @ ustr ''**Output:**'' @ [10] @ ustr ''```'' @ [10]
                  @ (if length s > 2000
                     then take 2000 s @ [10] @ ustr ''... (truncated)''
                     else s)
                  @ [10] @ ustr ''```'' @ [10, 10] @ post"
    unfolding shown_output_def .
qed

theorem tool_output_truncated_at_2000_witness:
  "\<exists>transcript pre post.
     save_detailed_markdown sample_builtins export_day False False
       [ToolResultMessage long_output_result None] = Inr transcript
     \<and> transcript = pre @ ustr ''**Output:**'' @ [10] @ ustr ''```'' @ [10]
         @ replicate 2000 120 @ [10] @ ustr ''... (truncated)''
         @ [10] @ ustr ''```'' @ [10, 10] @ post"
proof -
  have h1: "tr_stdout long_output_result = JStr (replicate 2500 120)"
    by (simp add: long_output_result_def)
  have h2: "replicate 2500 (120::nat) \<noteq> []"
    by simp
  have h3: "str_or_false (tr_stderr long_output_result)"
    by (simp add: long_output_result_def str_or_false_def)
  have l: "length (replicate 2500 (120::nat)) > 2000"
    by simp
  have t: "take 2000 (replicate 2500 (120::nat)) = replicate 2000 120"
    by simp
  note inst = tool_output_truncated_at_2000 [OF h1 h2, of sample_builtins export_day False
      False None, unfolded if_P [OF l] t]
  from inst h3 obtain transcript
    where tr: "save_detailed_markdown sample_builtins export_day False False
       [ToolResultMessage long_output_result None] = Inr transcript"
    by blast
  have "ToolResultMessage long_output_result None
      \<in> set [ToolResultMessage long_output_result None]"
    by simp
  with inst tr obtain pre post
    where "transcript = pre @ ustr ''**Output:**'' @ [10] @ ustr ''```'' @ [10]
         @ (replicate 2000 120 @ [10] @ ustr ''... (truncated)'')
         @ [10] @ ustr ''```'' @ [10, 10] @ post"
    by blast
  then have "transcript = pre @ ustr ''**Output:**'' @ [10] @ ustr ''```'' @ [10]
         @ replicate 2000 120 @ [10] @ ustr ''... (truncated)''
         @ [10] @ ustr ''```'' @ [10, 10] @ post"
    by simp
  with tr show ?thesis by blast
qed

section \<open>Properties of the export manager\<close>

lemma exporter_keys:
  "map fst exporters = [ustr ''markdown'', ustr ''md'', ustr ''json'', ustr ''html'']"
  by (simp add: exporters_def)

lemma available_keys:
  "py_join (ustr '', '') (map fst exporters) = ustr ''markdown, md, json, html''"
  by (simp add: exporter_keys ustr_def)

lemma available_message:
  "ustr ''. Available: '' @ ustr ''markdown, md, json, html''
     = ustr ''. Available: markdown, md, json, html''"
  by (simp add: ustr_def)

lemma exporters_lookup:
  "map_of exporters key =
     (if key \<in> {ustr ''markdown'', ustr ''md'', ustr ''json'', ustr ''html''}
      then Some (renderer_of key) else None)"
  by (simp add: exporters_def renderer_of_def ustr_def)

lemma export_dispatch:
  "(lower format \<notin> {ustr ''markdown'', ustr ''md'', ustr ''json'', ustr ''html''} \<longrightarrow>
      export lower output_dir now conversation sid format metadata
        = ([], Inl (ValueError (ustr ''Unsupported format: '' @ format
                      @ ustr ''. Available: markdown, md, json, html''))))
   \<and> (lower format \<in> {ustr ''markdown'', ustr ''md'', ustr ''json'', ustr ''html''} \<longrightarrow>
      export lower output_dir now conversation sid format metadata
        = exporter_export (renderer_of (lower format)) output_dir now conversation sid metadata
      \<and> (renders (renderer_of (lower format)) conversation metadata \<longrightarrow>
           (\<exists>file. export lower output_dir now conversation sid format metadata
                     = ([file], Inr (wf_path file))
                \<and> wf_complete file
                \<and> wf_path file
                    = (output_dir, ustr ''claude-conversation-'' @ strftime_date now @ ustr ''-''
                         @ take 8 sid @ extension (renderer_of (lower format))))))"
  by (simp add: export_def exporters_lookup available_keys available_message
      exporter_export_def Let_def export_filename_def del: insert_iff)

text \<open>
  Claim C6: for every conversation, session id, metadata and format string: when the
  lower-cased format is none of the keys \<open>markdown\<close>, \<open>md\<close>, \<open>json\<close>, \<open>html\<close>,
  \<open>ExportManager.export\<close> raises a \<open>ValueError\<close> whose message names the requested format
  and lists the available keys, and writes no file; when it is one of those keys, the
  call is the call of the corresponding renderer, and where that renderer does not raise
  it returns the path of the one file it has written,
  \<open>claude-conversation-{today}-{first 8 characters of the session id}\<close> with the
  renderer's extension.
\<close>

theorem export_unsupported_format_or_dispatch:
  "(lower format \<notin> {ustr ''markdown'', ustr ''md'', ustr ''json'', ustr ''html''} \<longrightarrow>
      export lower output_dir now conversation sid format metadata
        = ([], Inl (ValueError (ustr ''Unsupported format: '' @ format
                      @ ustr ''. Available: markdown, md, json, html''))))
   \<and> (lower format \<in> {ustr ''markdown'', ustr ''md'', ustr ''json'', ustr ''html''} \<longrightarrow>
      export lower output_dir now conversation sid format metadata
        = exporter_export (renderer_of (lower format)) output_dir now conversation sid metadata
      \<and> (renders (renderer_of (lower format)) conversation metadata \<longrightarrow>
           (\<exists>file. export lower output_dir now conversation sid format metadata
                     = ([file], Inr (wf_path file))
                \<and> wf_complete file
                \<and> wf_path file
                    = (output_dir, ustr ''claude-conversation-'' @ strftime_date now @ ustr ''-''
                         @ take 8 sid @ extension (renderer_of (lower format))))))"
  by (rule export_dispatch)

theorem export_unsupported_format_or_dispatch_witness:
  "export ascii_lower (ustr ''out'') export_day one_message_conversation
       (ustr ''abcdefgh12345'') (ustr ''yaml'') None
     = ([], Inl (ValueError (ustr ''Unsupported format: yaml. Available: markdown, md, json, html'')))
   \<and> (\<exists>file. export ascii_lower (ustr ''out'') export_day one_message_conversation
                 (ustr ''abcdefgh12345'') (ustr ''JSON'') None
               = ([file], Inr (wf_path file))
          \<and> wf_path file = (ustr ''out'', ustr ''claude-conversation-2026-11-04-abcdefgh.json''))"
proof -
  have y: "ascii_lower (ustr ''yaml'') \<notin> {ustr ''markdown'', ustr ''md'', ustr ''json'', ustr ''html''}"
    by (simp add: ascii_lower_def ustr_def)
  have j: "ascii_lower (ustr ''JSON'') = ustr ''json''"
    by (simp add: ascii_lower_def ustr_def)
  have jk: "ustr ''json'' \<in> {ustr ''markdown'', ustr ''md'', ustr ''json'', ustr ''html''}"
    by simp
  have r: "renderer_of (ustr ''json'') = JSONExporter"
    by (simp add: renderer_of_def ustr_def)
  have rn: "renders JSONExporter one_message_conversation None"
    by (simp add: renders_def)
  have m: "ustr ''Unsupported format: '' @ ustr ''yaml'' @ ustr ''. Available: markdown, md, json, html''
      = ustr ''Unsupported format: yaml. Available: markdown, md, json, html''"
    by (simp add: ustr_def)
  have n: "ustr ''claude-conversation-'' @ ustr ''2026-11-04'' @ ustr ''-''
        @ take 8 (ustr ''abcdefgh12345'') @ extension JSONExporter
      = ustr ''claude-conversation-2026-11-04-abcdefgh.json''"
    by (simp add: extension_def ustr_def)
  from export_unsupported_format_or_dispatch [of ascii_lower "ustr ''yaml''" "ustr ''out''"
      export_day one_message_conversation "ustr ''abcdefgh12345''" None] y
  have a: "export ascii_lower (ustr ''out'') export_day one_message_conversation
       (ustr ''abcdefgh12345'') (ustr ''yaml'') None
     = ([], Inl (ValueError (ustr ''Unsupported format: yaml. Available: markdown, md, json, html'')))"
    unfolding m by blast
  from export_unsupported_format_or_dispatch [of ascii_lower "ustr ''JSON''" "ustr ''out''"
      export_day one_message_conversation "ustr ''abcdefgh12345''" None]
  have b: "\<exists>file. export ascii_lower (ustr ''out'') export_day one_message_conversation
                 (ustr ''abcdefgh12345'') (ustr ''JSON'') None
               = ([file], Inr (wf_path file))
          \<and> wf_path file = (ustr ''out'', ustr ''claude-conversation-2026-11-04-abcdefgh.json'')"
    unfolding j r strftime_date_export_day n using jk rn by blast
  from a b show ?thesis by blast
qed

section \<open>Properties of the statistics\<close>

subsection \<open>The time loop\<close>

lemma time_loop_total:
  "list_all timestamp_ok conversation \<Longrightarrow> \<exists>b. time_loop fromiso conversation bounds = Inr b"
proof (induction conversation arbitrary: bounds)
  case Nil
  show ?case by simp
next
  case (Cons msg msgs)
  then have ok: "timestamp_ok msg" and rest: "list_all timestamp_ok msgs"
    by simp_all
  show ?case
  proof (cases "truthy (dict_get_or msg (ustr ''timestamp'') JNull)")
    case False
    then show ?thesis
      using Cons.IH [OF rest] by simp
  next
    case True
    with ok obtain s where "dict_get_or msg (ustr ''timestamp'') JNull = JStr s"
      by (auto simp: timestamp_ok_def is_str_def Let_def split: json.splits)
    then show ?thesis
      using Cons.IH [OF rest] True by (simp split: option.splits)
  qed
qed

lemma parsed_time_of_string:
  assumes "dict_get_or msg (ustr ''timestamp'') JNull = JStr s" "s \<noteq> []"
  shows "parsed_time fromiso msg = fromiso (replace_Z s)"
  using assms
  by (auto simp: parsed_time_def dict_get_or_def dict_get_def split: option.splits)

lemma parsed_time_of_false:
  assumes "\<not> truthy (dict_get_or msg (ustr ''timestamp'') JNull)"
  shows "parsed_time fromiso msg = None"
  using assms
  by (auto simp: parsed_time_def dict_get_or_def dict_get_def split: option.splits json.splits)

lemma time_loop_fold:
  "time_loop fromiso conversation bounds = Inr r
     \<Longrightarrow> r = fold update_bounds (parsed_times fromiso conversation) bounds"
proof (induction conversation arbitrary: bounds)
  case Nil
  then show ?case by (simp add: parsed_times_def)
next
  case (Cons msg msgs)
  show ?case
  proof (cases "truthy (dict_get_or msg (ustr ''timestamp'') JNull)")
    case False
    with Cons.prems have "time_loop fromiso msgs bounds = Inr r"
      by simp
    from Cons.IH [OF this] show ?thesis
      by (simp add: parsed_times_def parsed_time_of_false [OF False])
  next
    case True
    with Cons.prems obtain s where s: "dict_get_or msg (ustr ''timestamp'') JNull = JStr s"
      by (cases "dict_get_or msg (ustr ''timestamp'') JNull") simp_all
    with True have ne: "s \<noteq> []" by simp
    show ?thesis
    proof (cases "fromiso (replace_Z s)")
      case None
      with Cons.prems True s have "time_loop fromiso msgs bounds = Inr r"
        by simp
      from Cons.IH [OF this] show ?thesis
        by (simp add: parsed_times_def
            parsed_time_of_string [OF s ne] None)
    next
      case (Some t)
      with Cons.prems True s have "time_loop fromiso msgs (update_bounds t bounds) = Inr r"
        by simp
      from Cons.IH [OF this] show ?thesis
        by (simp add: parsed_times_def
            parsed_time_of_string [OF s ne] Some)
    qed
  qed
qed

lemma update_bounds_first: "update_bounds t (None, None) = (Some t, Some t)"
  by (simp add: update_bounds_def Let_def)

lemma update_bounds_other:
  "dt_aware s = dt_aware e \<Longrightarrow> dt_aware t \<noteq> dt_aware s
     \<Longrightarrow> update_bounds t (Some s, Some e) = (Some s, Some e)"
  by (simp add: update_bounds_def dt_less_def Let_def)

lemma update_bounds_same:
  "dt_aware s = dt_aware e \<Longrightarrow> dt_aware t = dt_aware s
     \<Longrightarrow> update_bounds t (Some s, Some e)
           = (Some (if dt_instant t < dt_instant s then t else s),
              Some (if dt_instant e < dt_instant t then t else e))"
  by (simp add: update_bounds_def dt_less_def Let_def)

lemma fold_update_bounds:
  assumes "dt_aware s = a" "dt_aware e = a"
  shows "\<exists>s' e'. fold update_bounds ts (Some s, Some e) = (Some s', Some e')
     \<and> dt_aware s' = a \<and> dt_aware e' = a
     \<and> dt_instant s' = fold min (map dt_instant (filter (\<lambda>u. dt_aware u = a) ts)) (dt_instant s)
     \<and> dt_instant e' = fold max (map dt_instant (filter (\<lambda>u. dt_aware u = a) ts)) (dt_instant e)"
  using assms
proof (induction ts arbitrary: s e)
  case Nil
  then show ?case by simp
next
  case (Cons t ts)
  show ?case
  proof (cases "dt_aware t = a")
    case False
    with Cons.prems have "update_bounds t (Some s, Some e) = (Some s, Some e)"
      by (simp add: update_bounds_other)
    with Cons.IH [OF Cons.prems] False show ?thesis
      by simp
  next
    case True
    define s1 where "s1 = (if dt_instant t < dt_instant s then t else s)"
    define e1 where "e1 = (if dt_instant e < dt_instant t then t else e)"
    from True Cons.prems have u: "update_bounds t (Some s, Some e) = (Some s1, Some e1)"
      by (simp add: update_bounds_same s1_def e1_def)
    have a1: "dt_aware s1 = a" "dt_aware e1 = a"
      using True Cons.prems by (simp_all add: s1_def e1_def)
    have i1: "dt_instant s1 = min (dt_instant t) (dt_instant s)"
      "dt_instant e1 = max (dt_instant t) (dt_instant e)"
      by (simp_all add: s1_def e1_def min_def max_def)
    from Cons.IH [OF a1] u True i1 show ?thesis
      by simp
  qed
qed

lemma bounds_of_times:
  "fold update_bounds ts (None, None) =
     (case ts of
        [] \<Rightarrow> (None, None)
      | t # ts' \<Rightarrow> fold update_bounds ts' (Some t, Some t))"
  by (cases ts) (simp_all add: update_bounds_first)

lemma time_loop_bounds:
  assumes "time_loop fromiso conversation (None, None) = Inr (start, end)"
  shows "(compared_times fromiso conversation = [] \<and> start = None \<and> end = None)
     \<or> (compared_times fromiso conversation \<noteq> []
        \<and> (\<exists>s e. start = Some s \<and> end = Some e \<and> dt_aware s = dt_aware e
             \<and> dt_instant e - dt_instant s
                 = span_micros (compared_times fromiso conversation)))"
proof (cases "parsed_times fromiso conversation")
  case Nil
  with time_loop_fold [OF assms] show ?thesis
    by (simp add: compared_times_def)
next
  case (Cons t ts)
  define a where "a = dt_aware t"
  have a: "dt_aware t = a" by (simp add: a_def)
  from fold_update_bounds [OF a a, of ts] obtain s' e'
    where f: "fold update_bounds ts (Some t, Some t) = (Some s', Some e')"
      and aw: "dt_aware s' = a" "dt_aware e' = a"
      and lo: "dt_instant s'
                = fold min (map dt_instant (filter (\<lambda>u. dt_aware u = a) ts)) (dt_instant t)"
      and hi: "dt_instant e'
                = fold max (map dt_instant (filter (\<lambda>u. dt_aware u = a) ts)) (dt_instant t)"
    by blast
  have c: "compared_times fromiso conversation = t # filter (\<lambda>u. dt_aware u = a) ts"
    by (simp add: compared_times_def Cons a_def)
  have "dt_instant s' = Min (set (map dt_instant (compared_times fromiso conversation)))"
    unfolding c lo by (simp only: list.map Min.set_eq_fold)
  moreover have "dt_instant e' = Max (set (map dt_instant (compared_times fromiso conversation)))"
    unfolding c hi by (simp only: list.map Max.set_eq_fold)
  moreover from time_loop_fold [OF assms] have "(start, end) = (Some s', Some e')"
    by (simp add: Cons update_bounds_first f)
  ultimately show ?thesis
    using aw by (simp add: span_micros_def c)
qed

subsection \<open>The record returned\<close>

lemma analyze_conversation_total:
  assumes "list_all timestamp_ok conversation"
  shows "\<exists>st. analyze_conversation fromiso conversation sid = Inr st"
proof (cases "conversation = []")
  case True
  then show ?thesis by (simp add: analyze_conversation_def)
next
  case False
  from time_loop_total [OF assms] obtain start "end"
    where tl: "time_loop fromiso conversation (None, None) = Inr (start, end)"
    by (metis surj_pair)
  from time_loop_bounds [OF tl]
  have "\<exists>dur. (case (start, end) of
                 (Some s, Some e) \<Rightarrow> map_sum id Some (dt_sub e s)
               | _ \<Rightarrow> Inr None) = Inr dur"
    by (auto simp: dt_sub_def)
  then obtain dur where "(case (start, end) of
                 (Some s, Some e) \<Rightarrow> map_sum id Some (dt_sub e s)
               | _ \<Rightarrow> Inr None) = Inr dur"
    by blast
  then show ?thesis
    using False tl by (simp add: analyze_conversation_def Let_def)
qed

lemma analyze_conversation_fields:
  assumes "analyze_conversation fromiso conversation sid = Inr st"
  shows "total_messages st = length conversation"
    and "user_messages st = count_role (ustr ''user'') conversation"
    and "assistant_messages st = count_role (ustr ''assistant'') conversation"
    and "average_message_length st
           = (if string_contents conversation = [] then 0
              else of_nat (sum_list (map length (string_contents conversation)))
                     / of_nat (length (string_contents conversation)))"
    and "longest_message st
           = (if string_contents conversation = [] then 0
              else Max (set (map length (string_contents conversation))))"
    and "shortest_message st
           = (if string_contents conversation = [] then 0
              else Min (set (map length (string_contents conversation))))"
    and "messages_per_hour st
           = (if compared_times fromiso conversation \<noteq> []
              then rate_per_hour (length conversation)
                     (span_micros (compared_times fromiso conversation))
              else 0)"
proof -
  show "total_messages st = length conversation"
    "user_messages st = count_role (ustr ''user'') conversation"
    "assistant_messages st = count_role (ustr ''assistant'') conversation"
    "average_message_length st
           = (if string_contents conversation = [] then 0
              else of_nat (sum_list (map length (string_contents conversation)))
                     / of_nat (length (string_contents conversation)))"
    "longest_message st
           = (if string_contents conversation = [] then 0
              else Max (set (map length (string_contents conversation))))"
    "shortest_message st
           = (if string_contents conversation = [] then 0
              else Min (set (map length (string_contents conversation))))"
    using assms
    by (auto simp: analyze_conversation_def Let_def empty_stats_def count_role_def
        string_contents_def split: if_splits sum.splits prod.splits)
  show "messages_per_hour st
           = (if compared_times fromiso conversation \<noteq> []
              then rate_per_hour (length conversation)
                     (span_micros (compared_times fromiso conversation))
              else 0)"
  proof (cases "conversation = []")
    case True
    with assms show ?thesis
      by (auto simp: analyze_conversation_def empty_stats_def compared_times_def
          parsed_times_def)
  next
    case False
    with assms obtain start "end" dur
      where tl: "time_loop fromiso conversation (None, None) = Inr (start, end)"
        and d: "(case (start, end) of
                 (Some s, Some e) \<Rightarrow> map_sum id Some (dt_sub e s)
               | _ \<Rightarrow> Inr None) = Inr dur"
        and m: "messages_per_hour st
                  = (case dur of None \<Rightarrow> 0 | Some d \<Rightarrow> rate_per_hour (length conversation) d)"
      by (auto simp: analyze_conversation_def Let_def split: sum.splits prod.splits)
    from time_loop_bounds [OF tl] show ?thesis
    proof
      assume "compared_times fromiso conversation = [] \<and> start = None \<and> end = None"
      with d m show ?thesis by auto
    next
      assume "compared_times fromiso conversation \<noteq> []
        \<and> (\<exists>s e. start = Some s \<and> end = Some e \<and> dt_aware s = dt_aware e
             \<and> dt_instant e - dt_instant s
                 = span_micros (compared_times fromiso conversation))"
      with d m show ?thesis by (auto simp: dt_sub_def)
    qed
  qed
qed

lemma rate_per_hour_formula:
  "rate_per_hour n d
     = (if d > 0 then of_nat n / (of_int d / 1000000 / 3600) else 0)"
  by (simp add: rate_per_hour_def Let_def zero_less_divide_iff)

lemma count_roles_le:
  "count_role (ustr ''user'') conversation + count_role (ustr ''assistant'') conversation
     \<le> length conversation"
proof -
  have neq: "ustr ''user'' \<noteq> ustr ''assistant''"
    by (simp add: ustr_def)
  show ?thesis
    unfolding count_role_def using neq
    by (induction conversation) auto
qed

lemma sum_list_lower: "(\<And>x. x \<in> set xs \<Longrightarrow> m \<le> x) \<Longrightarrow> m * length xs \<le> sum_list xs"
  for m :: nat
proof (induction xs)
  case Nil
  show ?case by simp
next
  case (Cons x xs)
  have "m \<le> x" by (rule Cons.prems) simp
  moreover have "m * length xs \<le> sum_list xs"
    by (rule Cons.IH) (simp add: Cons.prems)
  ultimately show ?case by simp
qed

lemma sum_list_upper: "(\<And>x. x \<in> set xs \<Longrightarrow> x \<le> m) \<Longrightarrow> sum_list xs \<le> m * length xs"
  for m :: nat
proof (induction xs)
  case Nil
  show ?case by simp
next
  case (Cons x xs)
  have "x \<le> m" by (rule Cons.prems) simp
  moreover have "sum_list xs \<le> m * length xs"
    by (rule Cons.IH) (simp add: Cons.prems)
  ultimately show ?case by simp
qed

lemma average_between_extremes:
  fixes xs :: "nat list"
  assumes "xs \<noteq> []"
  shows "(of_nat (Min (set xs)) :: rat) \<le> of_nat (sum_list xs) / of_nat (length xs)"
    and "(of_nat (sum_list xs) / of_nat (length xs) :: rat) \<le> of_nat (Max (set xs))"
proof -
  from assms have pos: "(0::rat) < of_nat (length xs)"
    by simp
  have "Min (set xs) * length xs \<le> sum_list xs"
    by (rule sum_list_lower) simp
  then have "(of_nat (Min (set xs) * length xs) :: rat) \<le> of_nat (sum_list xs)"
    by (simp only: of_nat_le_iff)
  then show "(of_nat (Min (set xs)) :: rat) \<le> of_nat (sum_list xs) / of_nat (length xs)"
    using pos by (simp add: pos_le_divide_eq)
  have "sum_list xs \<le> Max (set xs) * length xs"
    by (rule sum_list_upper) simp
  then have "(of_nat (sum_list xs) :: rat) \<le> of_nat (Max (set xs) * length xs)"
    by (simp only: of_nat_le_iff)
  then show "(of_nat (sum_list xs) / of_nat (length xs) :: rat) \<le> of_nat (Max (set xs))"
    using pos by (simp add: pos_divide_le_eq)
qed

lemma string_contents_nonempty:
  "list_ex has_string_content conversation \<Longrightarrow> string_contents conversation \<noteq> []"
  by (induction conversation)
     (auto simp: string_contents_def has_string_content_def is_str_def split: json.splits)

text \<open>
  The rate of a conversation whose timestamps are all strings or false values:
  \<open>analyze_conversation\<close> returns, and what it returns has \<open>messages_per_hour\<close> equal to
  the total message count divided by the duration in hours when a minimum and a maximum
  parseable timestamp exist and their difference is strictly positive, and equal to 0
  when the duration is zero or there is no parseable timestamp. The minimum and the
  maximum are taken over the parseable timestamps that can be compared with the first
  one, which are all of them unless naive and aware timestamps are mixed.
\<close>

lemma messages_per_hour_formula:
  "(list_all timestamp_ok conversation \<longrightarrow>
      (\<exists>st. analyze_conversation fromiso conversation sid = Inr st))
   \<and> (\<forall>st. analyze_conversation fromiso conversation sid = Inr st \<longrightarrow>
        messages_per_hour st
          = (if compared_times fromiso conversation \<noteq> []
                \<and> span_micros (compared_times fromiso conversation) > 0
             then of_nat (length conversation)
                    / (of_int (span_micros (compared_times fromiso conversation))
                         / 1000000 / 3600)
             else 0))"
  using analyze_conversation_total [of conversation fromiso sid]
    analyze_conversation_fields(7) [of fromiso conversation sid]
  by (simp add: rate_per_hour_formula)

text \<open>
  Claim C9: for every input message list, the record \<open>analyze_conversation\<close> returns
  (it returns whenever every timestamp is a string or a false value) satisfies:
  \<open>total_messages\<close> is the length of the list; \<open>user_messages + assistant_messages\<close> is at
  most \<open>total_messages\<close>; and, when at least one message has a string content,
  \<open>shortest_message \<le> average_message_length \<le> longest_message\<close>.
\<close>

theorem stats_record_invariants:
  "(list_all timestamp_ok conversation \<longrightarrow>
      (\<exists>st. analyze_conversation fromiso conversation sid = Inr st))
   \<and> (\<forall>st. analyze_conversation fromiso conversation sid = Inr st \<longrightarrow>
        total_messages st = length conversation
        \<and> user_messages st + assistant_messages st \<le> total_messages st
        \<and> (list_ex has_string_content conversation \<longrightarrow>
             of_nat (shortest_message st) \<le> average_message_length st
             \<and> average_message_length st \<le> of_nat (longest_message st)))"
proof (intro conjI impI allI)
  assume "list_all timestamp_ok conversation"
  then show "\<exists>st. analyze_conversation fromiso conversation sid = Inr st"
    by (rule analyze_conversation_total)
next
  fix st
  assume st: "analyze_conversation fromiso conversation sid = Inr st"
  show "total_messages st = length conversation"
    by (rule analyze_conversation_fields(1) [OF st])
  show "user_messages st + assistant_messages st \<le> total_messages st"
    unfolding analyze_conversation_fields(1-3) [OF st] by (rule count_roles_le)
  assume "list_ex has_string_content conversation"
  then have ne: "string_contents conversation \<noteq> []"
    by (rule string_contents_nonempty)
  then have ne': "map length (string_contents conversation) \<noteq> []"
    by simp
  from average_between_extremes [OF ne']
  show "of_nat (shortest_message st) \<le> average_message_length st"
    "average_message_length st \<le> of_nat (longest_message st)"
    unfolding analyze_conversation_fields(4-6) [OF st] using ne by simp_all
qed

subsection \<open>The two-hour conversation\<close>

lemma ten_timestamps_parsed:
  "map (\<lambda>s. iso_parse (replace_Z s)) ten_timestamps
     = map Some [utc_time 10 0 0, utc_time 10 13 20, utc_time 10 26 40, utc_time 10 40 0,
                 utc_time 10 53 20, utc_time 11 6 40, utc_time 11 20 0, utc_time 11 33 20,
                 utc_time 11 46 40, utc_time 12 0 0]"
  by (simp add: ten_timestamps_def replace_Z_def ustr_def iso_parse_def parse_date_def
      parse_clock_def parse_fraction_def parse_offset_def number_of_def is_digit_def
      days_in_month_def utc_time_def)

lemma ten_timestamps_nonempty: "list_all (\<lambda>s. s \<noteq> []) ten_timestamps"
  by (simp add: ten_timestamps_def ustr_def)

lemma parsed_time_make_message:
  "parsed_time fromiso (make_message role content (JStr s))
     = (if s = [] then None else fromiso (replace_Z s))"
  by (simp add: parsed_time_def make_message_def dict_get_def ustr_def)

lemma parsed_times_make_messages:
  "list_all (\<lambda>s. s \<noteq> []) tss \<Longrightarrow>
     parsed_times fromiso (map (\<lambda>ts. make_message role content (JStr ts)) tss)
       = List.map_filter (\<lambda>s. fromiso (replace_Z s)) tss"
  by (induction tss)
     (simp_all add: parsed_times_def parsed_time_make_message split: option.splits)

lemma map_filter_Some: "map f xs = map Some ys \<Longrightarrow> List.map_filter f xs = ys"
proof (induction xs arbitrary: ys)
  case Nil
  then show ?case by simp
next
  case (Cons x xs)
  then obtain y ys' where "ys = y # ys'" "f x = Some y" "map f xs = map Some ys'"
    by (cases ys) auto
  with Cons.IH [of ys'] show ?case
    by simp
qed

lemma two_hour_compared_times:
  "compared_times iso_parse two_hour_conversation
     = [utc_time 10 0 0, utc_time 10 13 20, utc_time 10 26 40, utc_time 10 40 0,
        utc_time 10 53 20, utc_time 11 6 40, utc_time 11 20 0, utc_time 11 33 20,
        utc_time 11 46 40, utc_time 12 0 0]"
proof -
  have "parsed_times iso_parse two_hour_conversation
     = [utc_time 10 0 0, utc_time 10 13 20, utc_time 10 26 40, utc_time 10 40 0,
        utc_time 10 53 20, utc_time 11 6 40, utc_time 11 20 0, utc_time 11 33 20,
        utc_time 11 46 40, utc_time 12 0 0]"
    unfolding two_hour_conversation_def
      parsed_times_make_messages [OF ten_timestamps_nonempty]
    by (rule map_filter_Some [OF ten_timestamps_parsed])
  then show ?thesis
    by (simp add: compared_times_def dt_aware_def utc_time_def)
qed

lemma utc_time_instant:
  "dt_instant (utc_time h m s)
     = (1705276800 + int h * 3600 + int m * 60 + int s) * 1000000"
  by (simp add: dt_instant_def utc_time_def days_from_civil_def)

lemma two_hour_span: "span_micros (compared_times iso_parse two_hour_conversation) = 7200000000"
  by (simp add: two_hour_compared_times span_micros_def utc_time_instant)

lemma two_hour_timestamps_ok: "list_all timestamp_ok two_hour_conversation"
  by (simp add: two_hour_conversation_def list_all_iff timestamp_ok_def make_message_def
      dict_get_or_def is_str_def ustr_def)

lemma two_hour_length: "length two_hour_conversation = 10"
  by (simp add: two_hour_conversation_def ten_timestamps_def)

lemma messages_per_hour_two_hours:
  "\<exists>st. analyze_conversation iso_parse two_hour_conversation (ustr ''session'') = Inr st
     \<and> messages_per_hour st = 5"
proof -
  note inst = messages_per_hour_formula [of two_hour_conversation iso_parse "ustr ''session''"]
  from inst two_hour_timestamps_ok obtain st
    where st: "analyze_conversation iso_parse two_hour_conversation (ustr ''session'') = Inr st"
    by blast
  with inst have "messages_per_hour st
          = (if compared_times iso_parse two_hour_conversation \<noteq> []
                \<and> span_micros (compared_times iso_parse two_hour_conversation) > 0
             then of_nat (length two_hour_conversation)
                    / (of_int (span_micros (compared_times iso_parse two_hour_conversation))
                         / 1000000 / 3600)
             else 0)"
    by blast
  also have "\<dots> = 5"
    unfolding two_hour_span two_hour_length
    by (simp add: two_hour_compared_times)
  finally show ?thesis
    using st by blast
qed

subsection \<open>The three-role conversation\<close>

lemma three_roles_timestamps_ok: "list_all timestamp_ok three_roles_conversation"
  by (simp add: three_roles_conversation_def timestamp_ok_def make_message_def
      dict_get_or_def is_str_def ustr_def)

lemma three_roles_string_content: "list_ex has_string_content three_roles_conversation"
  by (simp add: three_roles_conversation_def has_string_content_def make_message_def
      dict_get_or_def is_str_def ustr_def)

theorem stats_record_invariants_witness:
  "\<exists>st. analyze_conversation iso_parse three_roles_conversation (ustr ''session'') = Inr st
     \<and> total_messages st = 3
     \<and> user_messages st + assistant_messages st \<le> total_messages st
     \<and> of_nat (shortest_message st) \<le> average_message_length st
     \<and> average_message_length st \<le> of_nat (longest_message st)"
proof -
  note inst = stats_record_invariants [of three_roles_conversation iso_parse "ustr ''session''"]
  from inst three_roles_timestamps_ok obtain st
    where st: "analyze_conversation iso_parse three_roles_conversation (ustr ''session'') = Inr st"
    by blast
  have len: "length three_roles_conversation = 3"
    by (simp add: three_roles_conversation_def)
  from inst st three_roles_string_content
  have "total_messages st = length three_roles_conversation
        \<and> user_messages st + assistant_messages st \<le> total_messages st
        \<and> of_nat (shortest_message st) \<le> average_message_length st
        \<and> average_message_length st \<le> of_nat (longest_message st)"
    by blast
  with st show ?thesis
    unfolding len by blast
qed

subsection \<open>A timestamp that is a number\<close>

text \<open>
  Claim C7 fails on the code for a conversation with a timestamp that is a number: the
  message has no parseable timestamp, so that the rate claimed is 0, and
  \<open>analyze_conversation\<close> returns no record: the \<open>AttributeError\<close> of \<open>replace\<close> on
  the number leaves the function.
\<close>

theorem analyze_conversation_number_timestamp_raises:
  "extract_conversation py_str [Some (JObj number_timestamp_entry)]
     = number_timestamp_conversation
   \<and> parsed_times iso_parse number_timestamp_conversation = []
   \<and> analyze_conversation iso_parse number_timestamp_conversation (ustr ''session'')
       = Inl AttributeError"
proof (intro conjI)
  show "extract_conversation py_str [Some (JObj number_timestamp_entry)]
     = number_timestamp_conversation"
    by (simp add: extract_conversation_def number_timestamp_entry_def
        number_timestamp_conversation_def entry_of_role_def dict_get_def
        dict_get_or_def ustr_def py_strip_def py_isspace_def make_message_def)
  show "parsed_times iso_parse number_timestamp_conversation = []"
    by (simp add: parsed_times_def parsed_time_def number_timestamp_conversation_def
        make_message_def dict_get_def ustr_def)
  have "time_loop iso_parse number_timestamp_conversation (None, None) = Inl AttributeError"
    by (simp add: number_timestamp_conversation_def make_message_def dict_get_or_def
        ustr_def)
  then show "analyze_conversation iso_parse number_timestamp_conversation (ustr ''session'')
       = Inl AttributeError"
    by (simp add: analyze_conversation_def Let_def number_timestamp_conversation_def)
qed

end
